theory Spec2Isabelle
  imports Complex_Main "HOL-Library.Word"
begin

section \<open>ColorTrace: colour utilities, the colour extractor and the manual colour list\<close>

text \<open>
  A shallow embedding of the colour core of ColorTrace: the utility functions
  \<^verbatim>\<open>rgbToHex\<close>, \<^verbatim>\<open>hexToRgb\<close>, \<^verbatim>\<open>areColorsSimilar\<close>, \<^verbatim>\<open>isValidHex\<close>, \<^verbatim>\<open>getLuminance\<close> and
  \<^verbatim>\<open>sortColorsByUsage\<close>, the class \<^verbatim>\<open>ColorExtractor\<close> of \<^verbatim>\<open>js/colorExtractor.js\<close> and the
  function \<^verbatim>\<open>addSingleColor\<close> of the application script.

  Conventions of the model.
  \<^item> A JavaScript string is a \<^typ>\<open>string\<close>; every string the development computes with is
    ASCII, and \<^verbatim>\<open>toUpperCase\<close> is modelled on the ASCII letters.
  \<^item> A JavaScript number that reaches a colour channel is an integer or \<^verbatim>\<open>NaN\<close>
    (the channels come from a byte array, from \<^verbatim>\<open>parseInt\<close> or from a caller), so a
    channel is a \<open>number\<close>: \<open>Num i\<close> or \<open>NaN\<close>. On these values \<^verbatim>\<open>Math.round\<close> is the identity.
  \<^item> A number that is the result of arithmetic is the real number that the double stands
    for. Every operation of \<^verbatim>\<open>areColorsSimilar\<close> and of the percentages (\<^verbatim>\<open>-\<close>, \<^verbatim>\<open>+\<close>,
    \<^verbatim>\<open>*\<close>, \<^verbatim>\<open>/\<close>, \<^verbatim>\<open>Math.pow(x, 2)\<close>, \<^verbatim>\<open>Math.sqrt\<close>) is the exact operation followed by
    \<open>toDouble\<close>, the rounding to the nearest double. \<^verbatim>\<open>getLuminance\<close>, whose power with the
    exponent 2.4 has no prescribed rounding, is over the reals; it only decides which
    pixels an image contributes.
  \<^item> A \<^verbatim>\<open>Map\<close> is an association list in insertion order, which is the order in which
    JavaScript iterates it.
\<close>

subsection \<open>Strings and numbers\<close>

datatype number = Num int | NaN

definition toUpperChar :: "char \<Rightarrow> char" where
  "toUpperChar c =
     (if (97::nat) \<le> of_char c \<and> of_char c \<le> (122::nat)
      then char_of (of_char c - (32::nat)) else c)"

definition toUpperCase :: "string \<Rightarrow> string" where
  "toUpperCase s = map toUpperChar s"

text \<open>\<^verbatim>\<open>s.substring(i, j)\<close> for \<open>0 \<le> i \<le> j\<close>: both ends are clamped to the length.\<close>

definition substring :: "string \<Rightarrow> nat \<Rightarrow> nat \<Rightarrow> string" where
  "substring s i j = take (j - i) (drop i s)"

text \<open>The digits of \<^verbatim>\<open>Number.prototype.toString(16)\<close>: lower case, no leading zero.\<close>

definition hexDigitChar :: "nat \<Rightarrow> char" where
  "hexDigitChar d = (if d < 10 then char_of (48 + d) else char_of (87 + d))"

fun natToString16 :: "nat \<Rightarrow> string" where
  "natToString16 n =
     (if n < 16 then [hexDigitChar n]
      else natToString16 (n div 16) @ [hexDigitChar (n mod 16)])"

declare natToString16.simps [simp del]

fun toString16 :: "number \<Rightarrow> string" where
  "toString16 NaN = ''NaN''"
| "toString16 (Num i) =
     (if i < 0 then CHR ''-'' # natToString16 (nat (- i)) else natToString16 (nat i))"

text \<open>
  \<^verbatim>\<open>parseInt(s, 16)\<close>: leading white space is skipped, then an optional sign, then an
  optional \<^verbatim>\<open>0x\<close> or \<^verbatim>\<open>0X\<close>; the longest run of hexadecimal digits that follows is the
  value, and an empty run gives \<^verbatim>\<open>NaN\<close>. Whatever follows the run is ignored.
\<close>

definition isStrWhiteSpaceChar :: "char \<Rightarrow> bool" where
  "isStrWhiteSpaceChar c = ((of_char c :: nat) \<in> {9, 10, 11, 12, 13, 32, 160})"

definition hexDigitValue :: "char \<Rightarrow> nat option" where
  "hexDigitValue c =
     (let n = (of_char c :: nat) in
      if 48 \<le> n \<and> n \<le> 57 then Some (n - 48)
      else if 97 \<le> n \<and> n \<le> 102 then Some (n - 87)
      else if 65 \<le> n \<and> n \<le> 70 then Some (n - 55)
      else None)"

definition isHexDigit :: "char \<Rightarrow> bool" where
  "isHexDigit c = (hexDigitValue c \<noteq> None)"

definition hexValue :: "string \<Rightarrow> nat" where
  "hexValue z = foldl (\<lambda>a c. 16 * a + the (hexDigitValue c)) 0 z"

definition parseInt16 :: "string \<Rightarrow> number" where
  "parseInt16 s =
     (let s1 = dropWhile isStrWhiteSpaceChar s;
          negative = (take 1 s1 = ''-'');
          s2 = (if take 1 s1 = ''+'' \<or> take 1 s1 = ''-'' then drop 1 s1 else s1);
          s3 = (if take 2 s2 = ''0x'' \<or> take 2 s2 = ''0X'' then drop 2 s2 else s2);
          z = takeWhile isHexDigit s3
      in if z = [] then NaN
         else Num ((if negative then - 1 else 1) * int (hexValue z)))"

subsection \<open>Double precision\<close>

text \<open>
  The rounding of a real number to the nearest IEEE 754 double: 53 significant bits, a tie
  going to the even significand. For \<open>2\<^sup>e \<le> \<bar>x\<bar> < 2\<^sup>e\<^sup>+\<^sup>1\<close> the doubles around \<open>x\<close> are the
  multiples of \<open>2\<^sup>e\<^sup>-\<^sup>5\<^sup>2\<close>. Overflow and subnormal numbers are left out: the values that are
  rounded here are integers, their quotients and their square roots.
\<close>

definition roundHalfEven :: "real \<Rightarrow> int" where
  "roundHalfEven q =
     (let f = \<lfloor>q\<rfloor>
      in if q - of_int f < 1 / 2 then f
         else if 1 / 2 < q - of_int f then f + 1
         else if even f then f else f + 1)"

definition toDouble :: "real \<Rightarrow> real" where
  "toDouble x =
     (if x = 0 then 0
      else let u = 2 powr (of_int \<lfloor>log 2 \<bar>x\<bar>\<rfloor> - 52)
           in sgn x * of_int (roundHalfEven (\<bar>x\<bar> / u)) * u)"

subsection \<open>The utility functions\<close>

record rgb_color =
  r :: number
  g :: number
  b :: number

text \<open>\<^verbatim>\<open>Math.round\<close> on an integer or on \<^verbatim>\<open>NaN\<close>.\<close>

definition Math_round :: "number \<Rightarrow> number" where
  "Math_round n = n"

definition toHex :: "number \<Rightarrow> string" where
  "toHex n = (let hex = toString16 (Math_round n) in if length hex = 1 then CHR ''0'' # hex else hex)"

definition rgbToHex :: "number \<Rightarrow> number \<Rightarrow> number \<Rightarrow> string" where
  "rgbToHex r0 g0 b0 = toUpperCase (CHR ''#'' # toHex r0 @ toHex g0 @ toHex b0)"

text \<open>
  \<^verbatim>\<open>hex.replace('#', '')\<close> removes the first \<^verbatim>\<open>#\<close>, wherever it is; a string of three
  characters is then doubled character by character. The function has no \<^verbatim>\<open>throw\<close>: on
  every string it returns the three results of \<^verbatim>\<open>parseInt\<close>.
\<close>

definition hexToRgb :: "string \<Rightarrow> rgb_color" where
  "hexToRgb hex0 =
     (let hex1 = remove1 CHR ''#'' hex0;
          hex2 = (if length hex1 = 3 then concat (map (\<lambda>c. [c, c]) hex1) else hex1)
      in \<lparr> r = parseInt16 (substring hex2 0 2),
           g = parseInt16 (substring hex2 2 4),
           b = parseInt16 (substring hex2 4 6) \<rparr>)"

text \<open>
  \<^verbatim>\<open>Math.pow(x - y, 2)\<close> on two channels, and the distance of \<^verbatim>\<open>areColorsSimilar\<close>: the
  difference, the square, the two additions from left to right and the square root are
  each rounded to a double, the square root being the correctly rounded one of IEEE 754.
  \<open>None\<close> is \<^verbatim>\<open>NaN\<close>, which every comparison answers with \<^verbatim>\<open>false\<close>.
\<close>

fun powDiff2 :: "number \<Rightarrow> number \<Rightarrow> real option" where
  "powDiff2 (Num x) (Num y) = Some (toDouble ((toDouble (of_int x - of_int y))\<^sup>2))"
| "powDiff2 _ _ = None"

definition distance :: "rgb_color \<Rightarrow> rgb_color \<Rightarrow> real option" where
  "distance color1 color2 =
     (case (powDiff2 (r color1) (r color2), powDiff2 (g color1) (g color2),
            powDiff2 (b color1) (b color2)) of
        (Some dr, Some dg, Some db) \<Rightarrow> Some (toDouble (sqrt (toDouble (toDouble (dr + dg) + db))))
      | _ \<Rightarrow> None)"

definition areColorsSimilar :: "rgb_color \<Rightarrow> rgb_color \<Rightarrow> real \<Rightarrow> bool" where
  "areColorsSimilar color1 color2 threshold =
     (case distance color1 color2 of None \<Rightarrow> False | Some d \<Rightarrow> d < threshold)"

text \<open>
  The regular expression of \<^verbatim>\<open>isValidHex\<close>, \<^verbatim>\<open>/^#?([A-Fa-f0-9]{6}|[A-Fa-f0-9]{3})$/\<close>, as
  a term, and a backtracking matcher that returns what is left of the string after every
  way of matching. The anchors make \<^verbatim>\<open>test\<close> succeed exactly when a match from the first
  character leaves nothing.
\<close>

datatype regex =
    Eps
  | Lit char
  | Class "(char \<times> char) list"
  | Seq regex regex
  | Alt regex regex
  | Opt regex

text \<open>The bounded repetition \<^verbatim>\<open>e{n}\<close>.\<close>

primrec repeat :: "nat \<Rightarrow> regex \<Rightarrow> regex" where
  "repeat 0 e = Eps"
| "repeat (Suc n) e = Seq e (repeat n e)"

definition inClass :: "(char \<times> char) list \<Rightarrow> char \<Rightarrow> bool" where
  "inClass ranges c =
     list_ex (\<lambda>(lo, hi). (of_char lo :: nat) \<le> of_char c \<and> (of_char c :: nat) \<le> of_char hi) ranges"

fun rmatch :: "regex \<Rightarrow> string \<Rightarrow> string list" where
  "rmatch Eps s = [s]"
| "rmatch (Lit c) s = (case s of [] \<Rightarrow> [] | x # xs \<Rightarrow> if x = c then [xs] else [])"
| "rmatch (Class ranges) s =
     (case s of [] \<Rightarrow> [] | x # xs \<Rightarrow> if inClass ranges x then [xs] else [])"
| "rmatch (Seq e1 e2) s = concat (map (rmatch e2) (rmatch e1 s))"
| "rmatch (Alt e1 e2) s = rmatch e1 s @ rmatch e2 s"
| "rmatch (Opt e) s = rmatch e s @ [s]"

definition hexClass :: regex where
  "hexClass = Class [(CHR ''A'', CHR ''F''), (CHR ''a'', CHR ''f''), (CHR ''0'', CHR ''9'')]"

definition validHexRegex :: regex where
  "validHexRegex = Seq (Opt (Lit CHR ''#'')) (Alt (repeat 6 hexClass) (repeat 3 hexClass))"

definition isValidHex :: "string \<Rightarrow> bool" where
  "isValidHex hex0 = ([] \<in> set (rmatch validHexRegex hex0))"

text \<open>\<^verbatim>\<open>getLuminance\<close>; \<^verbatim>\<open>Math.pow(x, 2.4)\<close> is the real power.\<close>

definition linearize :: "real \<Rightarrow> real" where
  "linearize c0 =
     (let c = c0 / 255 in if c \<le> 0.03928 then c / 12.92 else ((c + 0.055) / 1.055) powr 2.4)"

definition getLuminance :: "real \<Rightarrow> real \<Rightarrow> real \<Rightarrow> real" where
  "getLuminance r0 g0 b0 = 0.2126 * linearize r0 + 0.7152 * linearize g0 + 0.0722 * linearize b0"

subsection \<open>The colour map and the palette\<close>

text \<open>
  The values of the colour map are objects \<^verbatim>\<open>{rgb, count}\<close>; the entries of a palette
  are objects \<^verbatim>\<open>{hex, rgb, count, percentage}\<close>, the percentage being the string that
  \<^verbatim>\<open>toFixed(2)\<close> returns.
\<close>

record color_data =
  rgb :: rgb_color
  count :: nat

record palette_entry = color_data +
  hex :: string
  percentage :: string

type_synonym color_map = "(string \<times> color_data) list"

text \<open>\<^verbatim>\<open>Map.prototype.set\<close>: a present key keeps its place and gets the new value.\<close>

fun Map_set :: "string \<Rightarrow> color_data \<Rightarrow> color_map \<Rightarrow> color_map" where
  "Map_set k v [] = [(k, v)]"
| "Map_set k v ((k', v') # m) = (if k' = k then (k, v) # m else (k', v') # Map_set k v m)"

record ColorExtractor =
  colorMap :: color_map
  similarityThreshold :: real

definition new_ColorExtractor :: ColorExtractor where
  "new_ColorExtractor = \<lparr> colorMap = [], similarityThreshold = 30 \<rparr>"

text \<open>
  The loop of \<^verbatim>\<open>addColor\<close> over the map: the first entry whose colour is similar gets
  \<^verbatim>\<open>count++\<close> and the loop breaks. The result is the flag \<^verbatim>\<open>found\<close> and the map.
\<close>

fun scanSimilar :: "rgb_color \<Rightarrow> real \<Rightarrow> color_map \<Rightarrow> bool \<times> color_map" where
  "scanSimilar c t [] = (False, [])"
| "scanSimilar c t ((k, d) # m) =
     (if areColorsSimilar c (rgb d) t then (True, (k, d\<lparr>count := count d + 1\<rparr>) # m)
      else (case scanSimilar c t m of (found, m') \<Rightarrow> (found, (k, d) # m')))"

definition addColor :: "ColorExtractor \<Rightarrow> number \<Rightarrow> number \<Rightarrow> number \<Rightarrow> ColorExtractor" where
  "addColor ex r0 g0 b0 =
     (let hex0 = rgbToHex r0 g0 b0;
          rgb0 = \<lparr> r = r0, g = g0, b = b0 \<rparr>
      in case scanSimilar rgb0 (similarityThreshold ex) (colorMap ex) of
           (found, m) \<Rightarrow>
             if \<not> found then ex\<lparr>colorMap := Map_set hex0 \<lparr> rgb = rgb0, count = 1 \<rparr> m\<rparr>
             else ex\<lparr>colorMap := m\<rparr>)"

definition addColors :: "ColorExtractor \<Rightarrow> (number \<times> number \<times> number) list \<Rightarrow> ColorExtractor" where
  "addColors ex obs = foldl (\<lambda>e (r0, g0, b0). addColor e r0 g0 b0) ex obs"

text \<open>
  \<^verbatim>\<open>sortColorsByUsage\<close>: the entries in map order, with percentage \<^verbatim>\<open>0\<close>, sorted by
  \<^verbatim>\<open>b.count - a.count\<close>. \<^verbatim>\<open>Array.prototype.sort\<close> is stable, as \<^const>\<open>sort_key\<close> is.
\<close>

definition sortColorsByUsage :: "color_map \<Rightarrow> palette_entry list" where
  "sortColorsByUsage m =
     sort_key (\<lambda>e. - int (count e))
       (map (\<lambda>(h, d). \<lparr> rgb = rgb d, count = count d, hex = h, percentage = ''0'' \<rparr>) m)"

text \<open>
  \<^verbatim>\<open>x.toFixed(2)\<close> for a double \<open>x \<ge> 0\<close>: the integer \<open>n\<close> with \<open>n / 100\<close> nearest to \<open>x\<close>,
  taken exactly, the larger one on a tie, written with two decimals.
\<close>

definition digitChar :: "nat \<Rightarrow> char" where
  "digitChar d = char_of (48 + d)"

fun natToString10 :: "nat \<Rightarrow> string" where
  "natToString10 n =
     (if n < 10 then [digitChar n] else natToString10 (n div 10) @ [digitChar (n mod 10)])"

declare natToString10.simps [simp del]

definition hundredths :: "real \<Rightarrow> nat" where
  "hundredths x = nat \<lfloor>x * 100 + 1 / 2\<rfloor>"

definition toFixed2 :: "real \<Rightarrow> string" where
  "toFixed2 x =
     (let n = hundredths x
      in natToString10 (n div 100) @ ''.'' @ [digitChar (n mod 100 div 10), digitChar (n mod 10)])"

text \<open>
  \<^verbatim>\<open>colors.reduce((sum, c) => sum + c.count, 0)\<close>, and the loop that stores
  \<^verbatim>\<open>((color.count / totalCount) * 100).toFixed(2)\<close> in every entry: the quotient is rounded
  to a double, and so is its product with 100. A total of zero, which needs every count to
  be zero, makes the quotient \<^verbatim>\<open>NaN\<close>.
\<close>

definition totalCount :: "palette_entry list \<Rightarrow> nat" where
  "totalCount colors = foldl (\<lambda>sum c. sum + count c) 0 colors"

definition percentValue :: "nat \<Rightarrow> nat \<Rightarrow> real" where
  "percentValue cnt totalCnt = toDouble (toDouble (of_nat cnt / of_nat totalCnt) * 100)"

definition percentageOf :: "nat \<Rightarrow> nat \<Rightarrow> string" where
  "percentageOf cnt totalCnt =
     (if totalCnt = 0 then ''NaN'' else toFixed2 (percentValue cnt totalCnt))"

definition calculatePercentages :: "palette_entry list \<Rightarrow> palette_entry list" where
  "calculatePercentages colors =
     (let totalCnt = totalCount colors
      in map (\<lambda>color. color\<lparr>percentage := percentageOf (count color) totalCnt\<rparr>) colors)"

subsection \<open>The source adapters\<close>

text \<open>
  \<^verbatim>\<open>analyzeImage\<close>, from the pixel buffer of the canvas on: the buffer is a list of RGBA
  pixels, the loop reads every fifth one (\<^verbatim>\<open>i += 4 * sampleRate\<close>), skips it when it is
  transparent or very dark or very light, and adds it otherwise. The result is the palette
  and the extractor.
\<close>

type_synonym pixel = "8 word \<times> 8 word \<times> 8 word \<times> 8 word"

definition samplePixel :: "ColorExtractor \<Rightarrow> pixel \<Rightarrow> ColorExtractor" where
  "samplePixel ex p =
     (case p of (r0, g0, b0, a0) \<Rightarrow>
        if a0 < 128 then ex
        else let luminance = getLuminance (real (unat r0)) (real (unat g0)) (real (unat b0))
             in if luminance < 0.05 \<or> luminance > 0.95 then ex
                else addColor ex (Num (uint r0)) (Num (uint g0)) (Num (uint b0)))"

function sampleLoop :: "ColorExtractor \<Rightarrow> pixel list \<Rightarrow> ColorExtractor" where
  "sampleLoop ex [] = ex"
| "sampleLoop ex (p # ps) = sampleLoop (samplePixel ex p) (drop 4 ps)"
  by pat_completeness auto
termination
  by (relation "measure (\<lambda>(ex, ps). length ps)") auto

definition analyzeImage :: "ColorExtractor \<Rightarrow> pixel list \<Rightarrow> palette_entry list \<times> ColorExtractor" where
  "analyzeImage ex pixels =
     (let ex1 = sampleLoop (ex\<lparr>colorMap := []\<rparr>) pixels;
          colors = calculatePercentages (sortColorsByUsage (colorMap ex1))
      in (take 50 colors, ex1))"

text \<open>
  \<^verbatim>\<open>extractFromCurrentPage\<close> and \<^verbatim>\<open>analyzeSVG\<close>, from the colours on: the walk over the
  document and \<^verbatim>\<open>parseColor\<close> belong to the browser, and the argument \<open>obs\<close> is the
  sequence of triples that the walk passes to \<^verbatim>\<open>addColor\<close>, in its order.
\<close>

definition extractFromCurrentPage ::
  "ColorExtractor \<Rightarrow> (number \<times> number \<times> number) list \<Rightarrow> palette_entry list \<times> ColorExtractor" where
  "extractFromCurrentPage ex obs =
     (let ex1 = addColors (ex\<lparr>colorMap := []\<rparr>) obs;
          colors = calculatePercentages (sortColorsByUsage (colorMap ex1))
      in (take 30 colors, ex1))"

definition analyzeSVG ::
  "ColorExtractor \<Rightarrow> (number \<times> number \<times> number) list \<Rightarrow> palette_entry list \<times> ColorExtractor" where
  "analyzeSVG ex obs =
     (let ex1 = addColors (ex\<lparr>colorMap := []\<rparr>) obs;
          colors = calculatePercentages (sortColorsByUsage (colorMap ex1))
      in (colors, ex1))"

subsection \<open>The manual colour list\<close>

text \<open>
  \<^verbatim>\<open>addSingleColor\<close> on the list \<^verbatim>\<open>currentColors\<close>: the result is the list and the toast
  that is shown, if any.
\<close>

definition addSingleColor :: "string \<Rightarrow> palette_entry list \<Rightarrow> palette_entry list \<times> string option" where
  "addSingleColor hex0 currentColors =
     (let rgb0 = hexToRgb hex0;
          color = \<lparr> rgb = rgb0, count = 1, hex = toUpperCase hex0, percentage = ''100.00'' \<rparr>;
          exists = list_ex (\<lambda>c. hex c = hex color) currentColors
      in if \<not> exists then (color # currentColors, None)
         else (currentColors, Some ''Color already in the list''))"

subsection \<open>Notions of the specification\<close>

text \<open>
  The specification speaks of hexadecimal digits, of a string with its optional leading
  \<^verbatim>\<open>#\<close> removed, of the Euclidean distance of two colours with integer channels, and of
  channels in the range of a byte. These are its words as definitions.
\<close>

definition hexadecimalDigits :: string where
  "hexadecimalDigits = ''0123456789abcdefABCDEF''"

definition stripHash :: "string \<Rightarrow> string" where
  "stripHash s = (case s of [] \<Rightarrow> [] | c # cs \<Rightarrow> if c = CHR ''#'' then cs else s)"

definition isValidHex_spec :: "string \<Rightarrow> bool" where
  "isValidHex_spec s =
     (let t = stripHash s
      in (length t = 3 \<or> length t = 6) \<and> list_all (\<lambda>c. c \<in> set hexadecimalDigits) t)"

definition rgbOf :: "int \<times> int \<times> int \<Rightarrow> rgb_color" where
  "rgbOf a = (case a of (r1, g1, b1) \<Rightarrow> \<lparr> r = Num r1, g = Num g1, b = Num b1 \<rparr>)"

definition colorDistance :: "int \<times> int \<times> int \<Rightarrow> int \<times> int \<times> int \<Rightarrow> real" where
  "colorDistance a c =
     (case (a, c) of ((r1, g1, b1), (r2, g2, b2)) \<Rightarrow>
        sqrt ((real_of_int r1 - real_of_int r2)\<^sup>2 + (real_of_int g1 - real_of_int g2)\<^sup>2
              + (real_of_int b1 - real_of_int b2)\<^sup>2))"

text \<open>The upper-case digit that \<^verbatim>\<open>rgbToHex\<close> writes for a value below 16, and the value of two digits.\<close>

definition upperHexDigit :: "nat \<Rightarrow> char" where
  "upperHexDigit d = toUpperChar (hexDigitChar d)"

definition byteOf :: "char \<Rightarrow> char \<Rightarrow> int" where
  "byteOf c1 c2 = int (16 * the (hexDigitValue c1) + the (hexDigitValue c2))"

text \<open>
  A channel in the range of a byte, a colour and an observation with such channels.
\<close>

fun byteChannel :: "number \<Rightarrow> bool" where
  "byteChannel (Num i) = (0 \<le> i \<and> i \<le> 255)"
| "byteChannel NaN = False"

definition byteColor :: "rgb_color \<Rightarrow> bool" where
  "byteColor c = (byteChannel (r c) \<and> byteChannel (g c) \<and> byteChannel (b c))"

definition byteObservation :: "number \<times> number \<times> number \<Rightarrow> bool" where
  "byteObservation ob = (case ob of (r0, g0, b0) \<Rightarrow> byteChannel r0 \<and> byteChannel g0 \<and> byteChannel b0)"

text \<open>
  The clusters of a colour map that an observation is not similar to, the sum of the counts
  of a colour map, its keys with their representatives, and the two facts about a colour
  map that hold while observations with byte channels are added: every key is the
  hexadecimal form of its representative, and every count is positive.
\<close>

definition notSimilarTo :: "rgb_color \<Rightarrow> real \<Rightarrow> string \<times> color_data \<Rightarrow> bool" where
  "notSimilarTo c t e = (\<not> areColorsSimilar c (rgb (snd e)) t)"

definition totalOfMap :: "color_map \<Rightarrow> nat" where
  "totalOfMap m = sum_list (map (\<lambda>e. count (snd e)) m)"

definition representatives :: "color_map \<Rightarrow> (string \<times> rgb_color) list" where
  "representatives m = map (\<lambda>e. (fst e, rgb (snd e))) m"

definition keyedByHex :: "color_map \<Rightarrow> bool" where
  "keyedByHex m = list_all (\<lambda>e. byteColor (rgb (snd e))
       \<and> fst e = rgbToHex (r (rgb (snd e))) (g (rgb (snd e))) (b (rgb (snd e)))) m"

definition positiveCounts :: "color_map \<Rightarrow> bool" where
  "positiveCounts m = list_all (\<lambda>e. 0 < count (snd e)) m"

text \<open>
  The palette of all clusters of an extractor, before any truncation; the number of
  hundredths that a percentage string such as \<^verbatim>\<open>60.00\<close> stands for; the sum of the
  percentages of a palette in hundredths; and the approximation of 100.00 that independent
  rounding allows: every entry is off by at most half a hundredth.
\<close>

definition fullPalette :: "ColorExtractor \<Rightarrow> palette_entry list" where
  "fullPalette ex = calculatePercentages (sortColorsByUsage (colorMap ex))"

definition percentageHundredths :: "string \<Rightarrow> nat" where
  "percentageHundredths s =
     foldl (\<lambda>a c. 10 * a + (of_char c - 48)) 0 (filter (\<lambda>c. c \<noteq> CHR ''.'') s)"

definition percentageSum :: "palette_entry list \<Rightarrow> nat" where
  "percentageSum colors = sum_list (map (\<lambda>e. percentageHundredths (percentage e)) colors)"

definition sumsTo100 :: "palette_entry list \<Rightarrow> bool" where
  "sumsTo100 colors = (2 * \<bar>int (percentageSum colors) - 10000\<bar> \<le> int (length colors))"

text \<open>
  A page with 31 colours that are pairwise 40 or more apart, the last of them seen three
  times: 33 observations.
\<close>

definition page_observations :: "(number \<times> number \<times> number) list" where
  "page_observations = [
      (Num 0, Num 0, Num 0), (Num 40, Num 0, Num 0), (Num 80, Num 0, Num 0), (Num 120, Num 0, Num 0),
      (Num 160, Num 0, Num 0), (Num 200, Num 0, Num 0), (Num 240, Num 0, Num 0), (Num 0, Num 40, Num 0),
      (Num 40, Num 40, Num 0), (Num 80, Num 40, Num 0), (Num 120, Num 40, Num 0), (Num 160, Num 40, Num 0),
      (Num 200, Num 40, Num 0), (Num 240, Num 40, Num 0), (Num 0, Num 80, Num 0), (Num 40, Num 80, Num 0),
      (Num 80, Num 80, Num 0), (Num 120, Num 80, Num 0), (Num 160, Num 80, Num 0), (Num 200, Num 80, Num 0),
      (Num 240, Num 80, Num 0), (Num 0, Num 120, Num 0), (Num 40, Num 120, Num 0), (Num 80, Num 120, Num 0),
      (Num 120, Num 120, Num 0), (Num 160, Num 120, Num 0), (Num 200, Num 120, Num 0), (Num 240, Num 120, Num 0),
      (Num 0, Num 160, Num 0), (Num 40, Num 160, Num 0), (Num 80, Num 160, Num 0), (Num 80, Num 160, Num 0),
      (Num 80, Num 160, Num 0)]"

text \<open>
  The observations of an image: of the pixels of the buffer, those at the positions 0, 5,
  10, ... that are opaque enough (alpha 128 or more) and neither very dark nor very light
  (luminance from 0.05 to 0.95), each with its three colour channels.
\<close>

definition everyFifth :: "'a list \<Rightarrow> 'a list" where
  "everyFifth ps = map (\<lambda>i. ps ! (5 * i)) [0 ..< (length ps + 4) div 5]"

definition keptPixel :: "pixel \<Rightarrow> bool" where
  "keptPixel p =
     (case p of (r0, g0, b0, a0) \<Rightarrow>
        128 \<le> unat a0
        \<and> 0.05 \<le> getLuminance (real (unat r0)) (real (unat g0)) (real (unat b0))
        \<and> getLuminance (real (unat r0)) (real (unat g0)) (real (unat b0)) \<le> 0.95)"

definition pixelObservation :: "pixel \<Rightarrow> number \<times> number \<times> number" where
  "pixelObservation p = (case p of (r0, g0, b0, a0) \<Rightarrow> (Num (uint r0), Num (uint g0), Num (uint b0)))"

definition imageObservations :: "pixel list \<Rightarrow> (number \<times> number \<times> number) list" where
  "imageObservations pixels = map pixelObservation (filter keptPixel (everyFifth pixels))"

text \<open>
  A palette accounts for a sequence of observations, for a threshold, when its counts add
  up to the number of observations, every observation is similar to the representative of
  an entry, and every entry has a positive count and an observed colour as its
  representative.
\<close>

definition observedColor :: "number \<times> number \<times> number \<Rightarrow> rgb_color" where
  "observedColor ob = (case ob of (r0, g0, b0) \<Rightarrow> \<lparr>r = r0, g = g0, b = b0\<rparr>)"

definition accountsFor :: "real \<Rightarrow> palette_entry list \<Rightarrow> (number \<times> number \<times> number) list \<Rightarrow> bool" where
  "accountsFor t palette obs \<longleftrightarrow>
     sum_list (map count palette) = length obs
     \<and> (\<forall>ob \<in> set obs. \<exists>e \<in> set palette. areColorsSimilar (observedColor ob) (rgb e) t)
     \<and> (\<forall>e \<in> set palette. 0 < count e \<and> rgb e \<in> observedColor ` set obs)"

text \<open>
  An image of 23 pixels, all green but five: the loop reads the pixels 0, 5, 10, 15 and 20,
  which are blue, white, a transparent red, red and red.
\<close>

definition image_pixels :: "pixel list" where
  "image_pixels = [
      (0, 0, 255, 255), (0, 255, 0, 255), (0, 255, 0, 255), (0, 255, 0, 255), (0, 255, 0, 255),
      (255, 255, 255, 255), (0, 255, 0, 255), (0, 255, 0, 255), (0, 255, 0, 255), (0, 255, 0, 255),
      (255, 0, 0, 0), (0, 255, 0, 255), (0, 255, 0, 255), (0, 255, 0, 255), (0, 255, 0, 255),
      (255, 0, 0, 255), (0, 255, 0, 255), (0, 255, 0, 255), (0, 255, 0, 255), (0, 255, 0, 255),
      (255, 0, 0, 255), (0, 255, 0, 255), (0, 255, 0, 255)]"

section \<open>Properties\<close>

subsection \<open>Characters and digits\<close>

lemma char_of_nat_eq: "of_char c = (n::nat) \<Longrightarrow> c = char_of n"
  by (metis char_of_char)

lemma char_of_hex_codes:
  "char_of (48::nat) = CHR ''0''" "char_of (49::nat) = CHR ''1''" "char_of (50::nat) = CHR ''2''"
  "char_of (51::nat) = CHR ''3''" "char_of (52::nat) = CHR ''4''" "char_of (53::nat) = CHR ''5''"
  "char_of (54::nat) = CHR ''6''" "char_of (55::nat) = CHR ''7''" "char_of (56::nat) = CHR ''8''"
  "char_of (57::nat) = CHR ''9''"
  "char_of (97::nat) = CHR ''a''" "char_of (98::nat) = CHR ''b''" "char_of (99::nat) = CHR ''c''"
  "char_of (100::nat) = CHR ''d''" "char_of (101::nat) = CHR ''e''" "char_of (102::nat) = CHR ''f''"
  "char_of (65::nat) = CHR ''A''" "char_of (66::nat) = CHR ''B''" "char_of (67::nat) = CHR ''C''"
  "char_of (68::nat) = CHR ''D''" "char_of (69::nat) = CHR ''E''" "char_of (70::nat) = CHR ''F''"
  by (simp_all add: char_of_def bit_iff_odd)

lemma isHexDigit_iff: "isHexDigit c \<longleftrightarrow> c \<in> set hexadecimalDigits"
proof
  assume "c \<in> set hexadecimalDigits"
  then show "isHexDigit c"
    unfolding hexadecimalDigits_def
    by (auto simp: isHexDigit_def hexDigitValue_def)
next
  assume h: "isHexDigit c"
  define n where "n = (of_char c :: nat)"
  from h have "(48 \<le> n \<and> n \<le> 57) \<or> (97 \<le> n \<and> n \<le> 102) \<or> (65 \<le> n \<and> n \<le> 70)"
    by (auto simp: isHexDigit_def hexDigitValue_def Let_def n_def split: if_splits)
  then have "n \<in> {48,49,50,51,52,53,54,55,56,57,97,98,99,100,101,102,65,66,67,68,69,70}"
    by (simp; arith)
  moreover have "c = char_of n" using n_def by (simp add: char_of_nat_eq)
  ultimately show "c \<in> set hexadecimalDigits"
    unfolding hexadecimalDigits_def
    by (auto simp: char_of_hex_codes)
qed

lemma isHexDigit_props:
  assumes "isHexDigit c"
  shows "\<not> isStrWhiteSpaceChar c" "c \<noteq> CHR ''+''" "c \<noteq> CHR ''-''" "c \<noteq> CHR ''x''" "c \<noteq> CHR ''X''"
    "c \<noteq> CHR ''#''" "the (hexDigitValue c) < 16"
  using assms unfolding isHexDigit_iff hexadecimalDigits_def
  by (auto simp: isStrWhiteSpaceChar_def hexDigitValue_def)

lemma nat_less_16_cases:
  "d < 16 \<Longrightarrow> d = 0 \<or> d = 1 \<or> d = 2 \<or> d = 3 \<or> d = 4 \<or> d = 5 \<or> d = 6 \<or> d = 7 \<or> d = 8 \<or> d = 9
     \<or> d = 10 \<or> d = 11 \<or> d = 12 \<or> d = 13 \<or> d = 14 \<or> d = (15::nat)"
  by arith

lemma upperHexDigit_values:
  "upperHexDigit 0 = CHR ''0''" "upperHexDigit 1 = CHR ''1''" "upperHexDigit 2 = CHR ''2''"
  "upperHexDigit 3 = CHR ''3''" "upperHexDigit 4 = CHR ''4''" "upperHexDigit 5 = CHR ''5''"
  "upperHexDigit 6 = CHR ''6''" "upperHexDigit 7 = CHR ''7''" "upperHexDigit 8 = CHR ''8''"
  "upperHexDigit 9 = CHR ''9''" "upperHexDigit 10 = CHR ''A''" "upperHexDigit 11 = CHR ''B''"
  "upperHexDigit 12 = CHR ''C''" "upperHexDigit 13 = CHR ''D''" "upperHexDigit 14 = CHR ''E''"
  "upperHexDigit 15 = CHR ''F''" "upperHexDigit (Suc 0) = CHR ''1''"
  by (simp_all add: upperHexDigit_def toUpperChar_def hexDigitChar_def char_of_def bit_iff_odd)

lemma upperHexDigit_isHexDigit: "d < 16 \<Longrightarrow> isHexDigit (upperHexDigit d)"
  using nat_less_16_cases [of d]
  by (auto simp: upperHexDigit_values isHexDigit_def hexDigitValue_def)

lemma upperHexDigit_value: "d < 16 \<Longrightarrow> the (hexDigitValue (upperHexDigit d)) = d"
  using nat_less_16_cases [of d]
  by (auto simp: upperHexDigit_values hexDigitValue_def)

lemma parseInt16_hex_pair:
  assumes "isHexDigit c1" "isHexDigit c2"
  shows "parseInt16 [c1, c2] = Num (byteOf c1 c2)"
  using isHexDigit_props [OF assms(1)] isHexDigit_props [OF assms(2)] assms
  by (simp add: parseInt16_def hexValue_def byteOf_def)

lemma byteOf_range: "isHexDigit c1 \<Longrightarrow> isHexDigit c2 \<Longrightarrow> 0 \<le> byteOf c1 c2 \<and> byteOf c1 c2 \<le> 255"
  using isHexDigit_props(7) [of c1] isHexDigit_props(7) [of c2] by (simp add: byteOf_def)

lemma natToString16_one: "m < 16 \<Longrightarrow> natToString16 m = [hexDigitChar m]"
  by (subst natToString16.simps) simp

lemma natToString16_two:
  "16 \<le> m \<Longrightarrow> m < 256 \<Longrightarrow> natToString16 m = [hexDigitChar (m div 16), hexDigitChar (m mod 16)]"
  by (subst natToString16.simps) (simp add: natToString16_one)

lemma toHex_byte:
  assumes "0 \<le> n" "n \<le> 255"
  shows "toUpperCase (toHex (Num n)) = [upperHexDigit (nat n div 16), upperHexDigit (nat n mod 16)]"
proof (cases "nat n < 16")
  case True
  then have "toHex (Num n) = [CHR ''0'', hexDigitChar (nat n)]"
    using assms by (simp add: toHex_def Math_round_def natToString16_one)
  moreover have "nat n div 16 = 0" "nat n mod 16 = nat n" using True by simp_all
  moreover have "toUpperChar CHR ''0'' = upperHexDigit 0"
    by (simp add: upperHexDigit_values toUpperChar_def)
  ultimately show ?thesis
    by (simp add: toUpperCase_def upperHexDigit_def)
next
  case False
  then have "16 \<le> nat n" "nat n < 256" using assms by simp_all
  then have "toHex (Num n) = [hexDigitChar (nat n div 16), hexDigitChar (nat n mod 16)]"
    using assms by (simp add: toHex_def Math_round_def natToString16_two)
  then show ?thesis by (simp add: toUpperCase_def upperHexDigit_def)
qed

lemma rgbToHex_bytes:
  assumes "0 \<le> r1" "r1 \<le> 255" "0 \<le> g1" "g1 \<le> 255" "0 \<le> b1" "b1 \<le> 255"
  shows "rgbToHex (Num r1) (Num g1) (Num b1) =
     [CHR ''#'', upperHexDigit (nat r1 div 16), upperHexDigit (nat r1 mod 16),
      upperHexDigit (nat g1 div 16), upperHexDigit (nat g1 mod 16),
      upperHexDigit (nat b1 div 16), upperHexDigit (nat b1 mod 16)]"
proof -
  have "rgbToHex (Num r1) (Num g1) (Num b1) =
      toUpperChar CHR ''#'' # toUpperCase (toHex (Num r1)) @ toUpperCase (toHex (Num g1))
        @ toUpperCase (toHex (Num b1))"
    by (simp add: rgbToHex_def toUpperCase_def)
  also have "toUpperChar CHR ''#'' = CHR ''#''" by (simp add: toUpperChar_def)
  finally show ?thesis using assms by (simp add: toHex_byte)
qed

lemma hexToRgb_rgbToHex:
  assumes "0 \<le> r1" "r1 \<le> 255" "0 \<le> g1" "g1 \<le> 255" "0 \<le> b1" "b1 \<le> 255"
  shows "hexToRgb (rgbToHex (Num r1) (Num g1) (Num b1)) = \<lparr>r = Num r1, g = Num g1, b = Num b1\<rparr>"
proof -
  have d: "nat r1 div 16 < 16" "nat r1 mod 16 < 16" "nat g1 div 16 < 16" "nat g1 mod 16 < 16"
    "nat b1 div 16 < 16" "nat b1 mod 16 < 16"
    using assms by simp_all
  have p: "parseInt16 [upperHexDigit h, upperHexDigit l] = Num (int (16 * h + l))"
    if "h < 16" "l < 16" for h l
    using that
    by (simp add: parseInt16_hex_pair upperHexDigit_isHexDigit byteOf_def upperHexDigit_value)
  have v: "int (16 * (nat r1 div 16) + nat r1 mod 16) = r1"
    "int (16 * (nat g1 div 16) + nat g1 mod 16) = g1"
    "int (16 * (nat b1 div 16) + nat b1 mod 16) = b1"
    using assms(1,3,5) by (simp_all only: mult_div_mod_eq int_nat_eq if_True)
  have h: "upperHexDigit (nat r1 div 16) \<noteq> CHR ''#''"
    using isHexDigit_props(6) [OF upperHexDigit_isHexDigit [OF d(1)]] .
  show ?thesis
    unfolding rgbToHex_bytes [OF assms]
    using assms(1,3,5)
    by (simp add: hexToRgb_def substring_def p d v h del: of_nat_add of_nat_mult)
qed

subsection \<open>The regular expression of \<^verbatim>\<open>isValidHex\<close>\<close>

lemma inClass_hex:
  "inClass [(CHR ''A'', CHR ''F''), (CHR ''a'', CHR ''f''), (CHR ''0'', CHR ''9'')] c = isHexDigit c"
  by (auto simp: inClass_def isHexDigit_def hexDigitValue_def Let_def)

lemma rmatch_repeat_Class:
  "set (rmatch (repeat n (Class rs)) s) =
     (if n \<le> length s \<and> list_all (inClass rs) (take n s) then {drop n s} else {})"
proof (induction n arbitrary: s)
  case 0
  then show ?case by simp
next
  case (Suc n)
  show ?case
  proof (cases s)
    case Nil
    then show ?thesis by simp
  next
    case (Cons x xs)
    then show ?thesis using Suc.IH [of xs] by simp
  qed
qed

lemma rmatch_hex_alternatives:
  "[] \<in> set (rmatch (Alt (repeat 6 hexClass) (repeat 3 hexClass)) t) \<longleftrightarrow>
     (length t = 3 \<or> length t = 6) \<and> list_all isHexDigit t"
proof -
  have eq: "inClass [(CHR ''A'', CHR ''F''), (CHR ''a'', CHR ''f''), (CHR ''0'', CHR ''9'')] = isHexDigit"
    by (rule ext) (rule inClass_hex)
  show ?thesis
    by (auto simp: hexClass_def rmatch_repeat_Class eq simp del: repeat.simps split: if_splits)
qed

lemma isValidHex_iff:
  "isValidHex s \<longleftrightarrow>
     (let t = stripHash s in (length t = 3 \<or> length t = 6) \<and> list_all isHexDigit t)"
proof (cases s)
  case Nil
  then show ?thesis
    using rmatch_hex_alternatives [of "[]"]
    by (simp add: isValidHex_def validHexRegex_def stripHash_def del: rmatch.simps(5))
next
  case (Cons x xs)
  show ?thesis
  proof (cases "x = CHR ''#''")
    case True
    have "\<not> list_all isHexDigit s" using Cons True isHexDigit_props(6) [of x] by auto
    then have "[] \<notin> set (rmatch (Alt (repeat 6 hexClass) (repeat 3 hexClass)) s)"
      by (simp only: rmatch_hex_alternatives) simp
    then show ?thesis
      using Cons True rmatch_hex_alternatives [of xs]
      by (simp add: isValidHex_def validHexRegex_def stripHash_def del: rmatch.simps(5))
  next
    case False
    with Cons show ?thesis
      using rmatch_hex_alternatives [of s]
      by (simp add: isValidHex_def validHexRegex_def stripHash_def del: rmatch.simps(5))
  qed
qed

text \<open>
  Claim C9. A string is accepted by \<^verbatim>\<open>isValidHex\<close> exactly when, with one optional
  leading \<^verbatim>\<open>#\<close> removed, it consists of exactly 3 or exactly 6 hexadecimal digits; it
  accepts \<^verbatim>\<open>#FFF\<close>, \<^verbatim>\<open>#ffffff\<close> and \<^verbatim>\<open>123ABC\<close> and rejects \<^verbatim>\<open>#12G\<close>, \<^verbatim>\<open>1234567\<close> and the
  empty string.
\<close>

theorem isValidHex_three_or_six_hex_digits:
  "(isValidHex s \<longleftrightarrow> isValidHex_spec s)
   \<and> isValidHex ''#FFF'' \<and> isValidHex ''#ffffff'' \<and> isValidHex ''123ABC''
   \<and> \<not> isValidHex ''#12G'' \<and> \<not> isValidHex ''1234567'' \<and> \<not> isValidHex ''''"
proof (intro conjI)
  show "isValidHex s \<longleftrightarrow> isValidHex_spec s"
    by (simp add: isValidHex_iff isValidHex_spec_def isHexDigit_iff [abs_def])
qed (simp_all add: isValidHex_iff stripHash_def isHexDigit_def hexDigitValue_def)

subsection \<open>The round trip through the hexadecimal form\<close>

text \<open>
  Claim C2. For integers \<open>r\<close>, \<open>g\<close>, \<open>b\<close> in \<open>[0, 255]\<close>, parsing the string that
  \<^verbatim>\<open>rgbToHex\<close> writes gives back exactly the three channels.
\<close>

theorem hexToRgb_rgbToHex_roundtrip:
  assumes "r1 \<in> {0..255}" and "g1 \<in> {0..255}" and "b1 \<in> {0..255}"
  shows "hexToRgb (rgbToHex (Num r1) (Num g1) (Num b1)) = \<lparr>r = Num r1, g = Num g1, b = Num b1\<rparr>"
  using assms by (simp add: hexToRgb_rgbToHex)

theorem hexToRgb_rgbToHex_roundtrip_witness:
  "(255::int) \<in> {0..255} \<and> (0::int) \<in> {0..255} \<and> (170::int) \<in> {0..255}
   \<and> hexToRgb (rgbToHex (Num 255) (Num 0) (Num 170)) = \<lparr>r = Num 255, g = Num 0, b = Num 170\<rparr>"
  using hexToRgb_rgbToHex_roundtrip [of 255 0 170] by simp

subsection \<open>\<^verbatim>\<open>hexToRgb\<close> on strings that are not colours\<close>

lemma length_3_conv: "length t = 3 \<longleftrightarrow> (\<exists>c1 c2 c3. t = [c1, c2, c3])"
  by (auto simp: eval_nat_numeral length_Suc_conv)

lemma length_6_conv: "length t = 6 \<longleftrightarrow> (\<exists>c1 c2 c3 c4 c5 c6. t = [c1, c2, c3, c4, c5, c6])"
  by (auto simp: eval_nat_numeral length_Suc_conv)

lemma remove1_hash_stripHash:
  assumes "list_all isHexDigit (stripHash s)"
  shows "remove1 CHR ''#'' s = stripHash s"
proof (cases s)
  case Nil
  then show ?thesis by (simp add: stripHash_def)
next
  case (Cons x xs)
  show ?thesis
  proof (cases "x = CHR ''#''")
    case True
    with Cons show ?thesis by (simp add: stripHash_def)
  next
    case False
    with Cons assms have "list_all isHexDigit s" by (simp add: stripHash_def)
    then have "CHR ''#'' \<notin> set s" using isHexDigit_props(6) by (auto simp: list_all_iff)
    then show ?thesis using Cons False by (simp add: stripHash_def remove1_idem)
  qed
qed

text \<open>
  Claim C4, as the specification states it: a string that is not 6 hexadecimal digits
  after the \<^verbatim>\<open>#\<close> is removed and a shorthand is expanded makes \<^verbatim>\<open>hexToRgb\<close> fail with
  \<^verbatim>\<open>InvalidFormat\<close>, and no partial result is returned. The function has no failure: on
  \<^verbatim>\<open>12\<close> it returns the red channel 18 beside two \<^verbatim>\<open>NaN\<close>, and on the seven digits
  \<^verbatim>\<open>1234567\<close> it returns the colour of the first six.
\<close>

theorem hexToRgb_returns_on_malformed:
  "\<not> isValidHex_spec ''12'' \<and> hexToRgb ''12'' = \<lparr>r = Num 18, g = NaN, b = NaN\<rparr>
   \<and> \<not> isValidHex_spec ''1234567''
   \<and> hexToRgb ''1234567'' = \<lparr>r = Num 18, g = Num 52, b = Num 86\<rparr>"
  by (simp add: isValidHex_spec_def stripHash_def hexToRgb_def substring_def parseInt16_def
      isStrWhiteSpaceChar_def isHexDigit_def hexDigitValue_def hexValue_def)

text \<open>
  Claim C4, amended: \<^verbatim>\<open>hexToRgb\<close> signals no error; what protects its callers is the
  validation before the call. On every string that \<^verbatim>\<open>isValidHex\<close> accepts it returns three
  integer channels in \<open>[0, 255]\<close>, none of them \<^verbatim>\<open>NaN\<close>.
\<close>

theorem hexToRgb_on_valid_hex:
  assumes "isValidHex s"
  shows "\<exists>r1 g1 b1. hexToRgb s = \<lparr>r = Num r1, g = Num g1, b = Num b1\<rparr>
           \<and> 0 \<le> r1 \<and> r1 \<le> 255 \<and> 0 \<le> g1 \<and> g1 \<le> 255 \<and> 0 \<le> b1 \<and> b1 \<le> 255"
proof -
  let ?t = "stripHash s"
  from assms have len: "length ?t = 3 \<or> length ?t = 6" and hex: "list_all isHexDigit ?t"
    by (simp_all add: isValidHex_iff Let_def)
  have rm: "remove1 CHR ''#'' s = ?t" using hex by (rule remove1_hash_stripHash)
  from len show ?thesis
  proof
    assume "length ?t = 3"
    then obtain c1 c2 c3 where t: "?t = [c1, c2, c3]" by (auto simp: length_3_conv)
    with hex have h: "isHexDigit c1" "isHexDigit c2" "isHexDigit c3" by simp_all
    have "hexToRgb s = \<lparr>r = Num (byteOf c1 c1), g = Num (byteOf c2 c2), b = Num (byteOf c3 c3)\<rparr>"
      by (simp add: hexToRgb_def rm t substring_def parseInt16_hex_pair h)
    then show ?thesis using byteOf_range h by blast
  next
    assume "length ?t = 6"
    then obtain c1 c2 c3 c4 c5 c6 where t: "?t = [c1, c2, c3, c4, c5, c6]"
      by (auto simp: length_6_conv)
    with hex have h: "isHexDigit c1" "isHexDigit c2" "isHexDigit c3" "isHexDigit c4"
      "isHexDigit c5" "isHexDigit c6"
      by simp_all
    have "hexToRgb s = \<lparr>r = Num (byteOf c1 c2), g = Num (byteOf c3 c4), b = Num (byteOf c5 c6)\<rparr>"
      by (simp add: hexToRgb_def rm t substring_def parseInt16_hex_pair h)
    then show ?thesis using byteOf_range h by blast
  qed
qed

theorem hexToRgb_on_valid_hex_witness:
  "isValidHex ''#f0a''
   \<and> (\<exists>r1 g1 b1. hexToRgb ''#f0a'' = \<lparr>r = Num r1, g = Num g1, b = Num b1\<rparr>
           \<and> 0 \<le> r1 \<and> r1 \<le> 255 \<and> 0 \<le> g1 \<and> g1 \<le> 255 \<and> 0 \<le> b1 \<and> b1 \<le> 255)"
proof -
  have v: "isValidHex ''#f0a''"
    by (simp add: isValidHex_iff stripHash_def isHexDigit_def hexDigitValue_def)
  from v hexToRgb_on_valid_hex [OF v] show ?thesis by (rule conjI)
qed

subsection \<open>Rounding to a double\<close>

lemma roundHalfEven_error: "\<bar>of_int (roundHalfEven q) - q\<bar> \<le> 1 / 2"
proof -
  define d where "d = q - of_int \<lfloor>q\<rfloor>"
  have d: "0 \<le> d" "d < 1" unfolding d_def by linarith+
  have q: "q = of_int \<lfloor>q\<rfloor> + d" by (simp add: d_def)
  consider "d < 1 / 2" | "1 / 2 < d" | "d = 1 / 2" by linarith
  then show ?thesis
  proof cases
    case 1
    then have "roundHalfEven q = \<lfloor>q\<rfloor>" by (simp add: roundHalfEven_def Let_def d_def)
    then show ?thesis using 1 d q by linarith
  next
    case 2
    then have "roundHalfEven q = \<lfloor>q\<rfloor> + 1" by (simp add: roundHalfEven_def Let_def d_def)
    then have "of_int (roundHalfEven q) = of_int \<lfloor>q\<rfloor> + (1::real)" by simp
    then show ?thesis using 2 d q by linarith
  next
    case 3
    then have "roundHalfEven q = \<lfloor>q\<rfloor> \<or> roundHalfEven q = \<lfloor>q\<rfloor> + 1"
      by (simp add: roundHalfEven_def Let_def d_def)
    then show ?thesis
    proof
      assume "roundHalfEven q = \<lfloor>q\<rfloor>"
      then show ?thesis using 3 q by linarith
    next
      assume "roundHalfEven q = \<lfloor>q\<rfloor> + 1"
      then have "of_int (roundHalfEven q) = of_int \<lfloor>q\<rfloor> + (1::real)" by simp
      then show ?thesis using 3 q by linarith
    qed
  qed
qed

lemma roundHalfEven_of_int: "roundHalfEven (of_int k) = k"
  by (simp add: roundHalfEven_def)

lemma roundHalfEven_nonneg: "0 \<le> q \<Longrightarrow> 0 \<le> roundHalfEven q"
  by (auto simp: roundHalfEven_def Let_def)

lemma toDouble_0: "toDouble 0 = 0"
  by (simp add: toDouble_def)

lemma toDouble_nonneg: "0 \<le> x \<Longrightarrow> 0 \<le> toDouble x"
  by (auto simp: toDouble_def Let_def roundHalfEven_nonneg sgn_if)

lemma toDouble_scaled:
  assumes "0 < x" and "2 ^ 52 \<le> x * 2 ^ k" and "x * 2 ^ k < 2 ^ 53"
  shows "toDouble x = of_int (roundHalfEven (x * 2 ^ k)) / 2 ^ k"
proof -
  have p: "(2::real) powr (52 - real k) = 2 ^ 52 / 2 ^ k"
    by (simp add: powr_diff powr_realpow)
  have p1: "(2::real) powr (53 - real k) = 2 ^ 53 / 2 ^ k"
    by (simp add: powr_diff powr_realpow)
  have "(2::real) powr (of_int (52 - int k)) \<le> x \<and> x < 2 powr (of_int (52 - int k) + 1)"
    using assms by (simp add: p p1 field_simps)
  then have e: "\<lfloor>log 2 x\<rfloor> = 52 - int k"
    using assms(1) by (subst floor_log_eq_powr_iff) simp_all
  have u: "(2::real) powr (- real k) = 1 / 2 ^ k"
    by (simp add: powr_minus powr_realpow inverse_eq_divide)
  show ?thesis
    using assms(1) by (simp add: toDouble_def Let_def e u)
qed

lemma toDouble_error:
  "\<bar>toDouble x - x\<bar> \<le> \<bar>x\<bar> / 2 ^ 53"
proof (cases "x = 0")
  case True
  then show ?thesis by (simp add: toDouble_def)
next
  case False
  define e where "e = \<lfloor>log 2 \<bar>x\<bar>\<rfloor>"
  define u where "u = (2::real) powr (of_int e - 52)"
  define m where "m = roundHalfEven (\<bar>x\<bar> / u)"
  have u0: "0 < u" by (simp add: u_def)
  have "2 powr (of_int e) \<le> \<bar>x\<bar>"
    using False floor_log_eq_powr_iff [of "\<bar>x\<bar>" 2 e] by (simp add: e_def)
  moreover have "u = 2 powr (of_int e) / 2 ^ 52" by (simp add: u_def powr_diff)
  ultimately have ub: "u \<le> \<bar>x\<bar> / 2 ^ 52" by (simp add: divide_right_mono)
  have t: "toDouble x = sgn x * of_int m * u"
    using False by (simp add: toDouble_def Let_def e_def u_def m_def)
  have "\<bar>toDouble x - x\<bar> = \<bar>of_int m * u - \<bar>x\<bar>\<bar>"
  proof (cases "0 < x")
    case True
    then show ?thesis unfolding t by simp
  next
    case False
    with \<open>x \<noteq> 0\<close> have n: "x < 0" by simp
    then have "sgn x * of_int m * u - x = - (of_int m * u - \<bar>x\<bar>)" by simp
    then show ?thesis unfolding t by (simp only: abs_minus)
  qed
  also have "\<dots> = \<bar>of_int m - \<bar>x\<bar> / u\<bar> * u"
  proof -
    have "of_int m * u - \<bar>x\<bar> = (of_int m - \<bar>x\<bar> / u) * u" using u0 by (simp add: field_simps)
    then show ?thesis using u0 by (simp add: abs_mult)
  qed
  also have "\<dots> \<le> (1 / 2) * u"
    using roundHalfEven_error [of "\<bar>x\<bar> / u"] u0 unfolding m_def
    by (intro mult_right_mono) simp_all
  also have "\<dots> \<le> \<bar>x\<bar> / 2 ^ 53" using ub by simp
  finally show ?thesis .
qed

lemma toDouble_of_int:
  assumes "\<bar>k\<bar> < 2 ^ 53"
  shows "toDouble (of_int k) = of_int k"
proof (cases "k = 0")
  case True
  then show ?thesis by (simp add: toDouble_def)
next
  case False
  define x where "x = \<bar>real_of_int k\<bar>"
  define e where "e = \<lfloor>log 2 x\<rfloor>"
  have x1: "1 \<le> x" using False by (simp add: x_def)
  have xlt: "x < 2 ^ 53"
  proof -
    have "real_of_int \<bar>k\<bar> < real_of_int (2 ^ 53)" using assms by (simp only: of_int_less_iff)
    then show ?thesis by (simp add: x_def)
  qed
  have pe: "2 powr (of_int e) \<le> x" "x < 2 powr (of_int e + 1)"
    using x1 floor_log_eq_powr_iff [of x 2 e] by (simp_all add: e_def)
  have e0: "0 \<le> e" using x1 by (simp add: e_def)
  have e52: "e \<le> 52"
  proof (rule ccontr)
    assume "\<not> e \<le> 52"
    then have "53 \<le> e" by simp
    then have "(2::real) powr 53 \<le> 2 powr (of_int e)" by (intro powr_mono) simp_all
    with pe(1) have "(2::real) ^ 53 \<le> x" by simp
    with xlt show False by simp
  qed
  define j where "j = nat (52 - e)"
  have u: "(2::real) powr (of_int e - 52) = 1 / 2 ^ j"
  proof -
    have "of_int e - (52::real) = - real j" using e52 by (simp add: j_def)
    then show ?thesis by (simp add: powr_minus powr_realpow inverse_eq_divide)
  qed
  have "x * 2 ^ j = of_int (\<bar>k\<bar> * 2 ^ j)"
    by (simp add: x_def)
  then have r: "roundHalfEven (x * 2 ^ j) = \<bar>k\<bar> * 2 ^ j"
    by (simp only: roundHalfEven_of_int)
  have "toDouble (of_int k) = sgn (of_int k) * of_int (\<bar>k\<bar> * 2 ^ j) * (1 / 2 ^ j)"
    using False by (simp add: toDouble_def Let_def x_def [symmetric] e_def [symmetric] r u)
  also have "\<dots> = sgn (real_of_int k) * \<bar>of_int k\<bar>" by simp
  also have "\<dots> = of_int k" by (simp add: sgn_if abs_if)
  finally show ?thesis .
qed

lemma roundHalfEven_between:
  assumes "of_int m - 1 / 2 < q" and "q < of_int m + 1 / 2"
  shows "roundHalfEven q = m"
proof -
  have e: "\<bar>of_int (roundHalfEven q) - q\<bar> \<le> 1 / 2" by (rule roundHalfEven_error)
  have "\<bar>real_of_int (roundHalfEven q) - real_of_int m\<bar> < 1" using e assms by linarith
  then have "\<bar>real_of_int (roundHalfEven q - m)\<bar> < 1" by simp
  then have "\<bar>roundHalfEven q - m\<bar> < 1" by linarith
  then show ?thesis by simp
qed

lemma toDouble_eval:
  assumes "0 < x" and "2 ^ 52 \<le> x * 2 ^ k" and "x * 2 ^ k < 2 ^ 53"
    and "of_int m - 1 / 2 < x * 2 ^ k" and "x * 2 ^ k < of_int m + 1 / 2"
  shows "toDouble x = of_int m / 2 ^ k"
  using toDouble_scaled [OF assms(1-3)] roundHalfEven_between [OF assms(4,5)] by simp

lemma toDouble_sqrt_2: "toDouble (sqrt 2) = 6369051672525773 / 2 ^ 52"
proof -
  have lo: "(6369051672525773 - 1 / 2) < sqrt 2 * 2 ^ 52"
  proof -
    have "((6369051672525773 - 1 / 2) / 2 ^ 52)\<^sup>2 < (2::real)" by (simp add: power2_eq_square)
    then have "(6369051672525773 - 1 / 2) / 2 ^ 52 < sqrt 2" by (rule real_less_rsqrt)
    then show ?thesis by (simp add: field_simps)
  qed
  have hi: "sqrt 2 * 2 ^ 52 < 6369051672525773 + 1 / 2"
  proof -
    have "(2::real) < ((6369051672525773 + 1 / 2) / 2 ^ 52)\<^sup>2" by (simp add: power2_eq_square)
    then have "sqrt 2 < (6369051672525773 + 1 / 2) / 2 ^ 52" by (intro real_less_lsqrt) simp_all
    then show ?thesis by (simp add: field_simps)
  qed
  have one: "1 \<le> sqrt 2" by simp
  have two: "sqrt 2 < 2" by (intro real_less_lsqrt) simp_all
  show ?thesis
    using toDouble_eval [of "sqrt 2" 52 6369051672525773] one two lo hi by simp
qed

lemma sqrt_double_less_int:
  assumes "0 \<le> n" and "n \<le> 2 ^ 52"
  shows "toDouble (sqrt (of_int n)) < of_int T \<longleftrightarrow> sqrt (of_int n) < of_int T"
proof -
  define x where "x = sqrt (real_of_int n)"
  define t where "t = real_of_int T"
  have x0: "0 \<le> x" using assms(1) by (simp add: x_def)
  have xx: "x * x = of_int n" using assms(1) by (simp add: x_def)
  have err: "\<bar>toDouble x - x\<bar> \<le> x / 2 ^ 53" using toDouble_error [of x] x0 by simp
  have d0: "0 \<le> toDouble x" using x0 by (rule toDouble_nonneg)
  have nb: "real_of_int n \<le> 2 ^ 52"
  proof -
    have "real_of_int n \<le> real_of_int (2 ^ 52)" using assms(2) by (simp only: of_int_le_iff)
    then show ?thesis by simp
  qed
  have xb: "x \<le> 2 ^ 26"
  proof -
    have "x \<le> sqrt ((2 ^ 26)\<^sup>2)" unfolding x_def using nb by (intro real_sqrt_le_mono) simp
    then show ?thesis by simp
  qed
  show ?thesis
    unfolding x_def [symmetric] t_def [symmetric]
  proof (cases "0 < T")
    case False
    then have "t \<le> 0" by (simp add: t_def)
    with d0 x0 show "toDouble x < t \<longleftrightarrow> x < t" by linarith
  next
    case True
    then have t1: "1 \<le> t" by (simp add: t_def)
    have tt: "t * t = of_int (T * T)" by (simp add: t_def)
    show "toDouble x < t \<longleftrightarrow> x < t"
    proof (cases "x < t")
      case True
      have "toDouble x < t"
      proof (cases "t \<le> 2 ^ 26")
        case True
        have "x * x < t * t" using \<open>x < t\<close> x0 by (intro mult_strict_mono') simp_all
        then have "real_of_int n < real_of_int (T * T)" by (simp only: xx tt)
        then have "n < T * T" by (simp only: of_int_less_iff)
        then have "n + 1 \<le> T * T" by simp
        then have "real_of_int (n + 1) \<le> real_of_int (T * T)" by (simp only: of_int_le_iff)
        then have gap: "1 \<le> t * t - x * x" by (simp add: xx tt)
        have "t * t - x * x = (t - x) * (t + x)" by (simp add: algebra_simps)
        also have "\<dots> < (t - x) * (2 * t)"
          using \<open>x < t\<close> by (intro mult_strict_left_mono) simp_all
        finally have a: "1 < (t - x) * (2 * t)" using gap by linarith
        have "t * t \<le> 2 ^ 26 * 2 ^ 26" using True t1 by (intro mult_mono) simp_all
        then have tb: "t * t \<le> 2 ^ 52" by simp
        have "x / 2 ^ 53 * (2 * t) \<le> t / 2 ^ 53 * (2 * t)"
          using \<open>x < t\<close> t1 by (intro mult_right_mono divide_right_mono) simp_all
        also have "\<dots> = (t * t) / 2 ^ 52" by simp
        also have "\<dots> \<le> 1" using tb by simp
        finally have "x / 2 ^ 53 * (2 * t) < (t - x) * (2 * t)" using a by linarith
        then have "x / 2 ^ 53 < t - x" by (rule mult_right_less_imp_less) (use t1 in simp)
        with err show ?thesis by linarith
      next
        case False
        then have "2 ^ 26 < t" by simp
        then have "real_of_int (2 ^ 26) < real_of_int T" by (simp add: t_def)
        then have "2 ^ 26 < T" by (simp only: of_int_less_iff)
        then have "2 ^ 26 + 1 \<le> T" by simp
        then have "real_of_int (2 ^ 26 + 1) \<le> real_of_int T" by (simp only: of_int_le_iff)
        then have tl: "2 ^ 26 + 1 \<le> t" by (simp add: t_def)
        have "x / 2 ^ 53 \<le> 2 ^ 26 / 2 ^ 53" using xb by (intro divide_right_mono) simp_all
        then have "x / 2 ^ 53 < 1" by simp
        with err xb tl show ?thesis by linarith
      qed
      with True show ?thesis by simp
    next
      case False
      then have tx: "t \<le> x" by simp
      have "t \<le> toDouble x"
      proof (cases "t = x")
        case True
        have "t \<le> 2 ^ 26" using True xb by simp
        then have "real_of_int T \<le> real_of_int (2 ^ 26)" by (simp add: t_def)
        then have "T \<le> 2 ^ 26" by (simp only: of_int_le_iff)
        with \<open>0 < T\<close> have "\<bar>T\<bar> < 2 ^ 53" by simp
        then have "toDouble (of_int T) = of_int T" by (rule toDouble_of_int)
        then show ?thesis using True by (simp add: t_def)
      next
        case False
        with tx have "t < x" by simp
        have "t * t < x * x" using \<open>t < x\<close> t1 by (intro mult_strict_mono') simp_all
        then have "real_of_int (T * T) < real_of_int n" by (simp only: xx tt)
        then have "T * T < n" by (simp only: of_int_less_iff)
        then have "T * T + 1 \<le> n" by simp
        then have "real_of_int (T * T + 1) \<le> real_of_int n" by (simp only: of_int_le_iff)
        then have gap: "1 \<le> x * x - t * t" by (simp add: xx tt)
        have e: "x * x - t * t = (x - t) * (x + t)" by (simp add: algebra_simps)
        have "x / 2 ^ 53 * (x + t) < x / 2 ^ 53 * (2 * x)"
          using \<open>t < x\<close> t1 by (intro mult_strict_left_mono) simp_all
        also have "\<dots> = (x * x) / 2 ^ 52" by simp
        also have "\<dots> \<le> 1" using nb by (simp add: xx)
        finally have "x / 2 ^ 53 * (x + t) < (x - t) * (x + t)" using gap e by linarith
        then have "x / 2 ^ 53 < x - t" by (rule mult_right_less_imp_less) (use t1 x0 in simp)
        with err show ?thesis by linarith
      qed
      with False show ?thesis by simp
    qed
  qed
qed

subsection \<open>Similar colours\<close>

lemma square_bound:
  assumes "\<bar>d\<bar> \<le> (2::int) ^ 25"
  shows "d\<^sup>2 \<le> 2 ^ 50" and "0 \<le> d\<^sup>2"
proof -
  have "\<bar>d\<bar>\<^sup>2 \<le> (2 ^ 25)\<^sup>2" using assms by (intro power_mono) simp_all
  then show "d\<^sup>2 \<le> 2 ^ 50" by simp
  show "0 \<le> d\<^sup>2" by simp
qed

lemma powDiff2_Num:
  assumes "\<bar>x - y\<bar> \<le> 2 ^ 25"
  shows "powDiff2 (Num x) (Num y) = Some (of_int ((x - y)\<^sup>2))"
proof -
  have "\<bar>x - y\<bar> < 2 ^ 53" using assms by simp
  then have a: "toDouble (of_int x - of_int y) = of_int (x - y)"
    using toDouble_of_int [of "x - y"] by simp
  have "\<bar>(x - y)\<^sup>2\<bar> < 2 ^ 53" using square_bound [OF assms] by simp
  then have "toDouble ((of_int (x - y))\<^sup>2) = of_int ((x - y)\<^sup>2)"
    using toDouble_of_int [of "(x - y)\<^sup>2"] by simp
  then show ?thesis by (simp only: powDiff2.simps a)
qed

lemma distance_Num:
  assumes "\<bar>r1 - r2\<bar> \<le> 2 ^ 25" and "\<bar>g1 - g2\<bar> \<le> 2 ^ 25" and "\<bar>b1 - b2\<bar> \<le> 2 ^ 25"
  shows "distance \<lparr>r = Num r1, g = Num g1, b = Num b1\<rparr> \<lparr>r = Num r2, g = Num g2, b = Num b2\<rparr>
      = Some (toDouble (sqrt (of_int ((r1 - r2)\<^sup>2 + (g1 - g2)\<^sup>2 + (b1 - b2)\<^sup>2))))"
proof -
  let ?dr = "(r1 - r2)\<^sup>2" and ?dg = "(g1 - g2)\<^sup>2" and ?db = "(b1 - b2)\<^sup>2"
  note br = square_bound [OF assms(1)] and bg = square_bound [OF assms(2)]
    and bb = square_bound [OF assms(3)]
  have "\<bar>?dr + ?dg\<bar> < 2 ^ 53" using br bg by simp
  then have s1: "toDouble (of_int ?dr + of_int ?dg) = of_int (?dr + ?dg)"
    using toDouble_of_int [of "?dr + ?dg"] by simp
  have "\<bar>?dr + ?dg + ?db\<bar> < 2 ^ 53" using br bg bb by simp
  then have s2: "toDouble (of_int (?dr + ?dg) + of_int ?db) = of_int (?dr + ?dg + ?db)"
    using toDouble_of_int [of "?dr + ?dg + ?db"] by simp
  show ?thesis
    unfolding distance_def
    by (simp only: rgb_color.simps powDiff2_Num [OF assms(1)] powDiff2_Num [OF assms(2)]
        powDiff2_Num [OF assms(3)] prod.case option.case s1 s2)
qed

lemma areColorsSimilar_int:
  assumes "\<bar>r1 - r2\<bar> \<le> 2 ^ 25" and "\<bar>g1 - g2\<bar> \<le> 2 ^ 25" and "\<bar>b1 - b2\<bar> \<le> 2 ^ 25"
  shows "areColorsSimilar \<lparr>r = Num r1, g = Num g1, b = Num b1\<rparr>
           \<lparr>r = Num r2, g = Num g2, b = Num b2\<rparr> (of_int T)
     \<longleftrightarrow> sqrt (of_int ((r1 - r2)\<^sup>2 + (g1 - g2)\<^sup>2 + (b1 - b2)\<^sup>2)) < of_int T"
proof -
  let ?n = "(r1 - r2)\<^sup>2 + (g1 - g2)\<^sup>2 + (b1 - b2)\<^sup>2"
  have "0 \<le> ?n" by simp
  moreover have "?n \<le> 2 ^ 52"
    using square_bound(1) [OF assms(1)] square_bound(1) [OF assms(2)] square_bound(1) [OF assms(3)]
    by simp
  ultimately have "toDouble (sqrt (of_int ?n)) < of_int T \<longleftrightarrow> sqrt (of_int ?n) < of_int T"
    by (rule sqrt_double_less_int)
  then show ?thesis
    unfolding areColorsSimilar_def distance_Num [OF assms] by (simp only: option.case)
qed

lemma sqrt_900: "sqrt 900 = 30"
proof -
  have "sqrt ((30::real)\<^sup>2) = 30" by (simp only: real_sqrt_abs abs_numeral)
  then show ?thesis by simp
qed

lemma areColorsSimilar_Num:
  assumes "\<bar>r1 - r2\<bar> \<le> 33554432" and "\<bar>g1 - g2\<bar> \<le> 33554432" and "\<bar>b1 - b2\<bar> \<le> 33554432"
  shows "areColorsSimilar \<lparr>r = Num r1, g = Num g1, b = Num b1\<rparr>
           \<lparr>r = Num r2, g = Num g2, b = Num b2\<rparr> 30
     \<longleftrightarrow> (r1 - r2)\<^sup>2 + (g1 - g2)\<^sup>2 + (b1 - b2)\<^sup>2 < 900"
proof -
  define n where "n = (r1 - r2)\<^sup>2 + (g1 - g2)\<^sup>2 + (b1 - b2)\<^sup>2"
  have a: "\<bar>r1 - r2\<bar> \<le> 2 ^ 25" "\<bar>g1 - g2\<bar> \<le> 2 ^ 25" "\<bar>b1 - b2\<bar> \<le> 2 ^ 25"
    using assms by simp_all
  have "sqrt (real_of_int n) < sqrt 900 \<longleftrightarrow> real_of_int n < 900" by (rule real_sqrt_less_iff)
  moreover have "real_of_int n < 900 \<longleftrightarrow> n < 900" by simp
  ultimately have "sqrt (real_of_int n) < 30 \<longleftrightarrow> n < 900" by (simp only: sqrt_900)
  moreover have "areColorsSimilar \<lparr>r = Num r1, g = Num g1, b = Num b1\<rparr>
           \<lparr>r = Num r2, g = Num g2, b = Num b2\<rparr> (real_of_int 30) \<longleftrightarrow> sqrt (real_of_int n) < real_of_int 30"
    unfolding n_def by (rule areColorsSimilar_int [OF a])
  ultimately show ?thesis unfolding n_def by simp
qed

lemma byteColor_rgbOf:
  "byteColor (rgbOf a) \<longleftrightarrow>
     (case a of (r1, g1, b1) \<Rightarrow> 0 \<le> r1 \<and> r1 \<le> 255 \<and> 0 \<le> g1 \<and> g1 \<le> 255 \<and> 0 \<le> b1 \<and> b1 \<le> 255)"
  by (cases a) (auto simp: byteColor_def rgbOf_def)

lemma similar_iff_distance:
  assumes "byteColor (rgbOf a)" and "byteColor (rgbOf c)"
  shows "areColorsSimilar (rgbOf a) (rgbOf c) (of_int T) \<longleftrightarrow> colorDistance a c < of_int T"
proof -
  obtain r1 g1 b1 where a: "a = (r1, g1, b1)" by (cases a) auto
  obtain r2 g2 b2 where c: "c = (r2, g2, b2)" by (cases c) auto
  from assms have rng: "0 \<le> r1" "r1 \<le> 255" "0 \<le> g1" "g1 \<le> 255" "0 \<le> b1" "b1 \<le> 255"
    "0 \<le> r2" "r2 \<le> 255" "0 \<le> g2" "g2 \<le> 255" "0 \<le> b2" "b2 \<le> 255"
    by (simp_all add: byteColor_rgbOf a c)
  have p: "(2::int) ^ 25 = 33554432" by simp
  have b: "\<bar>r1 - r2\<bar> \<le> 2 ^ 25" "\<bar>g1 - g2\<bar> \<le> 2 ^ 25" "\<bar>b1 - b2\<bar> \<le> 2 ^ 25"
    unfolding p using rng by linarith+
  have "colorDistance a c = sqrt (of_int ((r1 - r2)\<^sup>2 + (g1 - g2)\<^sup>2 + (b1 - b2)\<^sup>2))"
    by (simp add: colorDistance_def a c)
  then show ?thesis
    using areColorsSimilar_int [OF b, of T] by (simp add: rgbOf_def a c)
qed

text \<open>
  Claim C8, as the specification states it: for every threshold, two colours are similar
  exactly when their Euclidean distance is strictly below the threshold. The code compares
  the distance as a double: the distance of \<open>(0, 0, 0)\<close> and \<open>(1, 1, 0)\<close> is the square
  root of 2, the nearest double is \<open>6369051672525773 / 2\<^sup>5\<^sup>2\<close>, which is above the root, and
  under this threshold (\<^verbatim>\<open>1.4142135623730951\<close>) the two colours are not similar although
  their distance is below it.
\<close>

theorem areColorsSimilar_compares_rounded_distance:
  "colorDistance (0, 0, 0) (1, 1, 0) < 6369051672525773 / 4503599627370496
   \<and> \<not> areColorsSimilar (rgbOf (0, 0, 0)) (rgbOf (1, 1, 0)) (6369051672525773 / 4503599627370496)"
proof
  have "(2::real) < (6369051672525773 / 4503599627370496)\<^sup>2" by (simp add: power2_eq_square)
  then have "sqrt 2 < 6369051672525773 / 4503599627370496" by (intro real_less_lsqrt) simp_all
  then show "colorDistance (0, 0, 0) (1, 1, 0) < 6369051672525773 / 4503599627370496"
    by (simp add: colorDistance_def)
  have "distance (rgbOf (0, 0, 0)) (rgbOf (1, 1, 0)) = Some (toDouble (sqrt 2))"
    using distance_Num [of 0 1 0 1 0 0] by (simp add: rgbOf_def)
  then show "\<not> areColorsSimilar (rgbOf (0, 0, 0)) (rgbOf (1, 1, 0)) (6369051672525773 / 4503599627370496)"
    by (simp add: areColorsSimilar_def toDouble_sqrt_2)
qed

text \<open>
  Claim C8, amended: for two colours with integer channels in \<open>[0, 255]\<close> and an integer
  threshold, as the 30 of the extractor is, the colours are similar exactly when their
  Euclidean distance is strictly below the threshold; so a pair at a distance equal to the
  threshold is not similar, black is similar to itself under 30, and black and white are
  not.
\<close>

theorem areColorsSimilar_euclidean_integer_threshold:
  "(byteColor (rgbOf a) \<and> byteColor (rgbOf c) \<longrightarrow>
      (areColorsSimilar (rgbOf a) (rgbOf c) (of_int T) \<longleftrightarrow> colorDistance a c < of_int T))
   \<and> (byteColor (rgbOf a) \<and> byteColor (rgbOf c) \<and> colorDistance a c = of_int T \<longrightarrow>
      \<not> areColorsSimilar (rgbOf a) (rgbOf c) (of_int T))
   \<and> areColorsSimilar (rgbOf (0, 0, 0)) (rgbOf (0, 0, 0)) 30
   \<and> \<not> areColorsSimilar (rgbOf (0, 0, 0)) (rgbOf (255, 255, 255)) 30"
proof (intro conjI impI)
  show "areColorsSimilar (rgbOf a) (rgbOf c) (of_int T) \<longleftrightarrow> colorDistance a c < of_int T"
    if "byteColor (rgbOf a) \<and> byteColor (rgbOf c)"
    using that by (simp add: similar_iff_distance)
  show "\<not> areColorsSimilar (rgbOf a) (rgbOf c) (of_int T)"
    if "byteColor (rgbOf a) \<and> byteColor (rgbOf c) \<and> colorDistance a c = of_int T"
    using that by (simp add: similar_iff_distance)
  show "areColorsSimilar (rgbOf (0, 0, 0)) (rgbOf (0, 0, 0)) 30"
    by (simp add: rgbOf_def areColorsSimilar_Num)
  show "\<not> areColorsSimilar (rgbOf (0, 0, 0)) (rgbOf (255, 255, 255)) 30"
    by (simp add: rgbOf_def areColorsSimilar_Num)
qed

theorem areColorsSimilar_euclidean_integer_threshold_witness:
  "byteColor (rgbOf (0, 0, 0)) \<and> byteColor (rgbOf (30, 0, 0)) \<and> byteColor (rgbOf (20, 20, 10))
   \<and> colorDistance (0, 0, 0) (30, 0, 0) = 30
   \<and> \<not> areColorsSimilar (rgbOf (0, 0, 0)) (rgbOf (30, 0, 0)) 30
   \<and> colorDistance (0, 0, 0) (20, 20, 10) = 30
   \<and> \<not> areColorsSimilar (rgbOf (0, 0, 0)) (rgbOf (20, 20, 10)) 30
   \<and> colorDistance (0, 0, 0) (20, 20, 9) < 30
   \<and> areColorsSimilar (rgbOf (0, 0, 0)) (rgbOf (20, 20, 9)) 30"
proof -
  have b: "byteColor (rgbOf (0, 0, 0))" "byteColor (rgbOf (30, 0, 0))" "byteColor (rgbOf (20, 20, 10))"
    "byteColor (rgbOf (20, 20, 9))"
    by (simp_all add: byteColor_rgbOf)
  have d1: "colorDistance (0, 0, 0) (30, 0, 0) = 30" and d2: "colorDistance (0, 0, 0) (20, 20, 10) = 30"
    by (simp_all add: colorDistance_def sqrt_900)
  have "sqrt 881 < sqrt 900" by (rule real_sqrt_less_mono) simp
  then have d3: "colorDistance (0, 0, 0) (20, 20, 9) < 30"
    by (simp add: colorDistance_def sqrt_900)
  from areColorsSimilar_euclidean_integer_threshold [of "(0, 0, 0)" "(30, 0, 0)" 30] b d1
  have n1: "\<not> areColorsSimilar (rgbOf (0, 0, 0)) (rgbOf (30, 0, 0)) 30" by simp
  from areColorsSimilar_euclidean_integer_threshold [of "(0, 0, 0)" "(20, 20, 10)" 30] b d2
  have n2: "\<not> areColorsSimilar (rgbOf (0, 0, 0)) (rgbOf (20, 20, 10)) 30" by simp
  from areColorsSimilar_euclidean_integer_threshold [of "(0, 0, 0)" "(20, 20, 9)" 30] b d3
  have n3: "areColorsSimilar (rgbOf (0, 0, 0)) (rgbOf (20, 20, 9)) 30" by simp
  from b d1 d2 d3 n1 n2 n3 show ?thesis by simp
qed

subsection \<open>Percentages\<close>

lemmas string_eval =
  natToString10.simps natToString16.simps digitChar_def hexDigitChar_def char_of_def bit_iff_odd
  toUpperCase_def toUpperChar_def rgbToHex_def toHex_def Math_round_def

lemma percentValue_nonneg: "0 \<le> percentValue c t"
  unfolding percentValue_def by (intro toDouble_nonneg mult_nonneg_nonneg) simp_all

lemma percentValue_error:
  "\<bar>percentValue c t - 100 * (real c / real t)\<bar> \<le> 300 * (real c / real t) / 2 ^ 53"
proof -
  define y where "y = real c / real t"
  define a where "a = toDouble y"
  have y0: "0 \<le> y" by (simp add: y_def)
  have ea: "\<bar>a - y\<bar> \<le> y / 2 ^ 53" using toDouble_error [of y] y0 by (simp add: a_def)
  have a0: "0 \<le> a" unfolding a_def using y0 by (rule toDouble_nonneg)
  have "a \<le> y + y / 2 ^ 53" using ea by linarith
  also have "\<dots> \<le> 2 * y" using y0 by (simp add: field_simps)
  finally have a2: "a \<le> 2 * y" .
  have "\<bar>toDouble (a * 100) - a * 100\<bar> \<le> (a * 100) / 2 ^ 53"
    using toDouble_error [of "a * 100"] a0 by simp
  also have "\<dots> \<le> (2 * y * 100) / 2 ^ 53" using a2 by (intro divide_right_mono mult_right_mono) simp_all
  finally have ex: "\<bar>toDouble (a * 100) - a * 100\<bar> \<le> 200 * y / 2 ^ 53" by simp
  have "\<bar>toDouble (a * 100) - 100 * y\<bar> \<le> 200 * y / 2 ^ 53 + 100 * (y / 2 ^ 53)"
    using ex ea by linarith
  then show ?thesis by (simp add: percentValue_def y_def [symmetric] a_def [symmetric])
qed

lemma hundredths_error: "0 \<le> x \<Longrightarrow> \<bar>real (hundredths x) - x * 100\<bar> \<le> 1 / 2"
proof -
  assume "0 \<le> x"
  then have "0 \<le> \<lfloor>x * 100 + 1 / 2\<rfloor>" by simp
  then have "real (hundredths x) = of_int \<lfloor>x * 100 + 1 / 2\<rfloor>" by (simp add: hundredths_def)
  then show ?thesis by linarith
qed

lemma entry_error:
  "\<bar>real (hundredths (percentValue c t)) - 10000 * (real c / real t)\<bar>
     \<le> 1 / 2 + 30000 * (real c / real t) / 2 ^ 53"
  using hundredths_error [OF percentValue_nonneg [of c t]] percentValue_error [of c t]
  by linarith

lemma rounding_sum:
  "\<bar>real (sum_list (map (\<lambda>c. hundredths (percentValue c t)) cs)) - 10000 * (real (sum_list cs) / real t)\<bar>
     \<le> real (length cs) / 2 + 30000 * (real (sum_list cs) / real t) / 2 ^ 53"
proof (induction cs)
  case Nil
  then show ?case by simp
next
  case (Cons c cs)
  define u where "u = real c / real t"
  define v where "v = real (sum_list cs) / real t"
  define h where "h = real (hundredths (percentValue c t))"
  define k where "k = real (sum_list (map (\<lambda>c. hundredths (percentValue c t)) cs))"
  have s: "real (sum_list (c # cs)) / real t = u + v"
    by (simp add: add_divide_distrib u_def v_def)
  have l: "real (length (c # cs)) / 2 = 1 / 2 + real (length cs) / 2" by simp
  have m: "real (sum_list (map (\<lambda>c. hundredths (percentValue c t)) (c # cs))) = h + k"
    by (simp add: h_def k_def)
  have 1: "\<bar>h - 10000 * u\<bar> \<le> 1 / 2 + 30000 * u / 2 ^ 53"
    using entry_error [of c t] by (simp only: h_def u_def)
  have 2: "\<bar>k - 10000 * v\<bar> \<le> real (length cs) / 2 + 30000 * v / 2 ^ 53"
    using Cons by (simp only: k_def v_def)
  have d: "30000 * (u + v) / 2 ^ 53 = 30000 * u / 2 ^ 53 + 30000 * v / 2 ^ 53"
    by (simp add: add_divide_distrib distrib_left)
  have tri: "\<bar>(h + k) - (p + q)\<bar> \<le> (a + n) + (e + f)"
    if "\<bar>h - p\<bar> \<le> a + e" "\<bar>k - q\<bar> \<le> n + f" for p q a n e f :: real
    using that by linarith
  have "\<bar>(h + k) - (10000 * u + 10000 * v)\<bar>
      \<le> (1 / 2 + real (length cs) / 2) + (30000 * u / 2 ^ 53 + 30000 * v / 2 ^ 53)"
    using 1 2 by (rule tri)
  then have "\<bar>(h + k) - 10000 * (u + v)\<bar>
      \<le> (1 / 2 + real (length cs) / 2) + (30000 * u / 2 ^ 53 + 30000 * v / 2 ^ 53)"
    by (simp only: distrib_left)
  then show ?case by (simp only: s l m d)
qed

lemma rounding_total:
  assumes "sum_list cs = t" and "0 < t"
  shows "2 * \<bar>int (sum_list (map (\<lambda>c. hundredths (percentValue c t)) cs)) - 10000\<bar>
           \<le> int (length cs)"
proof -
  define s where "s = sum_list (map (\<lambda>c. hundredths (percentValue c t)) cs)"
  have one: "real t / real t = 1" using assms(2) by simp
  have "\<bar>real s - 10000 * (real t / real t)\<bar> \<le> real (length cs) / 2 + 30000 * (real t / real t) / 2 ^ 53"
    using rounding_sum [of t cs] by (simp only: assms(1) s_def)
  then have b: "\<bar>real s - 10000\<bar> \<le> real (length cs) / 2 + 30000 / 2 ^ 53"
    by (simp only: one mult_1_right)
  define e where "e = (30000::real) / 2 ^ 53"
  have "e < 1 / 2" by (simp add: e_def)
  moreover have "real s - 10000 \<le> real (length cs) / 2 + e \<and> - (real s - 10000) \<le> real (length cs) / 2 + e"
    using b by (simp only: e_def abs_le_iff)
  ultimately have "real s - 10000 < (real (length cs) + 1) / 2 \<and> - (real s - 10000) < (real (length cs) + 1) / 2"
    by (simp add: field_simps)
  then have "\<bar>real s - 10000\<bar> < (real (length cs) + 1) / 2" by (simp only: abs_less_iff)
  then have "2 * \<bar>real s - 10000\<bar> < real (length cs) + 1" by simp
  then have "real_of_int (2 * \<bar>int s - 10000\<bar>) < real_of_int (int (length cs) + 1)" by simp
  then have "2 * \<bar>int s - 10000\<bar> < int (length cs) + 1" by (simp only: of_int_less_iff)
  then show ?thesis by (simp add: s_def)
qed

lemma percentValue_eval:
  assumes "toDouble (real c / real t) = a" and "toDouble (a * 100) = v"
  shows "percentValue c t = v"
  by (simp only: percentValue_def assms)

lemma percentageOf_3_5: "percentageOf 3 5 = ''60.00''"
proof -
  have a: "toDouble (real 3 / real 5) = 5404319552844595 / 2 ^ 53"
    using toDouble_eval [of "real 3 / real 5" 53 5404319552844595] by simp
  have b: "toDouble (5404319552844595 / 2 ^ 53 * 100) = 8444249301319680 / 2 ^ 47"
    using toDouble_eval [of "5404319552844595 / 2 ^ 53 * 100" 47 8444249301319680] by simp
  have v: "percentValue 3 5 = 8444249301319680 / 2 ^ 47" by (rule percentValue_eval [OF a b])
  have h: "hundredths (8444249301319680 / 2 ^ 47) = 6000" by (simp add: hundredths_def)
  show ?thesis
    unfolding percentageOf_def toFixed2_def Let_def v h
    by (simp add: natToString10.simps digitChar_def char_of_def bit_iff_odd)
qed

lemma percentageOf_2_5: "percentageOf 2 5 = ''40.00''"
proof -
  have a: "toDouble (real 2 / real 5) = 7205759403792794 / 2 ^ 54"
    using toDouble_eval [of "real 2 / real 5" 54 7205759403792794] by simp
  have b: "toDouble (7205759403792794 / 2 ^ 54 * 100) = 5629499534213120 / 2 ^ 47"
    using toDouble_eval [of "7205759403792794 / 2 ^ 54 * 100" 47 5629499534213120] by simp
  have v: "percentValue 2 5 = 5629499534213120 / 2 ^ 47" by (rule percentValue_eval [OF a b])
  have h: "hundredths (5629499534213120 / 2 ^ 47) = 4000" by (simp add: hundredths_def)
  show ?thesis
    unfolding percentageOf_def toFixed2_def Let_def v h
    by (simp add: natToString10.simps digitChar_def char_of_def bit_iff_odd)
qed

lemma percentageOf_3_33: "percentageOf 3 33 = ''9.09''"
proof -
  have a: "toDouble (real 3 / real 33) = 6550690367084358 / 2 ^ 56"
    using toDouble_eval [of "real 3 / real 33" 56 6550690367084358] by simp
  have b: "toDouble (6550690367084358 / 2 ^ 56 * 100) = 5117726849284655 / 2 ^ 49"
    using toDouble_eval [of "6550690367084358 / 2 ^ 56 * 100" 49 5117726849284655] by simp
  have v: "percentValue 3 33 = 5117726849284655 / 2 ^ 49" by (rule percentValue_eval [OF a b])
  have h: "hundredths (5117726849284655 / 2 ^ 49) = 909" by (simp add: hundredths_def)
  show ?thesis
    unfolding percentageOf_def toFixed2_def Let_def v h
    by (simp add: natToString10.simps digitChar_def char_of_def bit_iff_odd)
qed

lemma percentageOf_1_33: "percentageOf 1 33 = ''3.03''"
proof -
  have a: "toDouble (real 1 / real 33) = 8734253822779144 / 2 ^ 58"
    using toDouble_eval [of "real 1 / real 33" 58 8734253822779144] by simp
  have b: "toDouble (8734253822779144 / 2 ^ 58 * 100) = 6823635799046206 / 2 ^ 51"
    using toDouble_eval [of "8734253822779144 / 2 ^ 58 * 100" 51 6823635799046206] by simp
  have v: "percentValue 1 33 = 6823635799046206 / 2 ^ 51" by (rule percentValue_eval [OF a b])
  have h: "hundredths (6823635799046206 / 2 ^ 51) = 303" by (simp add: hundredths_def)
  show ?thesis
    unfolding percentageOf_def toFixed2_def Let_def v h
    by (simp add: natToString10.simps digitChar_def char_of_def bit_iff_odd)
qed

lemma percentageOf_1_2: "percentageOf 1 2 = ''50.00''"
proof -
  have a: "toDouble (real 1 / real 2) = 4503599627370496 / 2 ^ 53"
    using toDouble_eval [of "real 1 / real 2" 53 4503599627370496] by simp
  have b: "toDouble (4503599627370496 / 2 ^ 53 * 100) = 7036874417766400 / 2 ^ 47"
    using toDouble_eval [of "4503599627370496 / 2 ^ 53 * 100" 47 7036874417766400] by simp
  have v: "percentValue 1 2 = 7036874417766400 / 2 ^ 47" by (rule percentValue_eval [OF a b])
  have h: "hundredths (7036874417766400 / 2 ^ 47) = 5000" by (simp add: hundredths_def)
  show ?thesis
    unfolding percentageOf_def toFixed2_def Let_def v h
    by (simp add: natToString10.simps digitChar_def char_of_def bit_iff_odd)
qed

lemma percentageOf_1_1: "percentageOf 1 1 = ''100.00''"
proof -
  have a: "toDouble (real 1 / real 1) = 4503599627370496 / 2 ^ 52"
    using toDouble_eval [of "real 1 / real 1" 52 4503599627370496] by simp
  have b: "toDouble (4503599627370496 / 2 ^ 52 * 100) = 7036874417766400 / 2 ^ 46"
    using toDouble_eval [of "4503599627370496 / 2 ^ 52 * 100" 46 7036874417766400] by simp
  have v: "percentValue 1 1 = 7036874417766400 / 2 ^ 46" by (rule percentValue_eval [OF a b])
  have h: "hundredths (7036874417766400 / 2 ^ 46) = 10000" by (simp add: hundredths_def)
  show ?thesis
    unfolding percentageOf_def toFixed2_def Let_def v h
    by (simp add: natToString10.simps digitChar_def char_of_def bit_iff_odd)
qed

lemma percentageOf_23_160: "percentageOf 23 160 = ''14.37''"
proof -
  have a: "toDouble (real 23 / real 160) = 5179139571476070 / 2 ^ 55"
    using toDouble_eval [of "real 23 / real 160" 55 5179139571476070] by simp
  have b: "toDouble (5179139571476070 / 2 ^ 55 * 100) = 8092405580431359 / 2 ^ 49"
    using toDouble_eval [of "5179139571476070 / 2 ^ 55 * 100" 49 8092405580431359] by simp
  have v: "percentValue 23 160 = 8092405580431359 / 2 ^ 49" by (rule percentValue_eval [OF a b])
  have h: "hundredths (8092405580431359 / 2 ^ 49) = 1437" by (simp add: hundredths_def)
  show ?thesis
    unfolding percentageOf_def toFixed2_def Let_def v h
    by (simp add: natToString10.simps digitChar_def char_of_def bit_iff_odd)
qed

lemma percentageOf_2_3: "percentageOf 2 3 = ''66.67''"
proof -
  have a: "toDouble (real 2 / real 3) = 6004799503160661 / 2 ^ 53"
    using toDouble_eval [of "real 2 / real 3" 53 6004799503160661] by simp
  have b: "toDouble (6004799503160661 / 2 ^ 53 * 100) = 4691249611844266 / 2 ^ 46"
    using toDouble_eval [of "6004799503160661 / 2 ^ 53 * 100" 46 4691249611844266] by simp
  have v: "percentValue 2 3 = 4691249611844266 / 2 ^ 46" by (rule percentValue_eval [OF a b])
  have h: "hundredths (4691249611844266 / 2 ^ 46) = 6667" by (simp add: hundredths_def)
  show ?thesis
    unfolding percentageOf_def toFixed2_def Let_def v h
    by (simp add: natToString10.simps digitChar_def char_of_def bit_iff_odd)
qed

lemma percentageOf_1_3: "percentageOf 1 3 = ''33.33''"
proof -
  have a: "toDouble (real 1 / real 3) = 6004799503160661 / 2 ^ 54"
    using toDouble_eval [of "real 1 / real 3" 54 6004799503160661] by simp
  have b: "toDouble (6004799503160661 / 2 ^ 54 * 100) = 4691249611844266 / 2 ^ 47"
    using toDouble_eval [of "6004799503160661 / 2 ^ 54 * 100" 47 4691249611844266] by simp
  have v: "percentValue 1 3 = 4691249611844266 / 2 ^ 47" by (rule percentValue_eval [OF a b])
  have h: "hundredths (4691249611844266 / 2 ^ 47) = 3333" by (simp add: hundredths_def)
  show ?thesis
    unfolding percentageOf_def toFixed2_def Let_def v h
    by (simp add: natToString10.simps digitChar_def char_of_def bit_iff_odd)
qed

lemma percentageOf_Suc_0:
  "percentageOf (Suc 0) 33 = ''3.03''" "percentageOf (Suc 0) 2 = ''50.00''"
  "percentageOf (Suc 0) (Suc 0) = ''100.00''"
  using percentageOf_1_33 percentageOf_1_2 percentageOf_1_1 by simp_all

lemma percentageOf_Suc_3:
  "percentageOf 2 (Suc (Suc (Suc 0))) = ''66.67''" "percentageOf (Suc 0) (Suc (Suc (Suc 0))) = ''33.33''"
  using percentageOf_2_3 percentageOf_1_3 by (simp_all add: numeral_3_eq_3)

lemmas percentage_eval =
  percentageOf_3_5 percentageOf_2_5 percentageOf_3_33 percentageOf_1_33 percentageOf_1_2 percentageOf_1_1 percentageOf_23_160 percentageOf_Suc_0

subsection \<open>The clusterer on five observations\<close>

lemma rgbToHex_10: "rgbToHex (Num 10) (Num 10) (Num 10) = ''#0A0A0A''"
  by (simp add: string_eval)

lemma rgbToHex_200: "rgbToHex (Num 200) (Num 200) (Num 200) = ''#C8C8C8''"
  by (simp add: string_eval)

text \<open>
  Claim C5. Three observations \<open>(10, 10, 10)\<close> followed by two observations
  \<open>(200, 200, 200)\<close>, added to a new extractor (threshold 30) and finalized, give exactly two
  palette entries, in this order: count 3 with percentage \<^verbatim>\<open>60.00\<close>, then count 2 with
  percentage \<^verbatim>\<open>40.00\<close>. The finalization is that of \<^verbatim>\<open>analyzeSVG\<close> and that of
  \<^verbatim>\<open>extractFromCurrentPage\<close>.
\<close>

theorem five_observations_two_clusters:
  "fst (analyzeSVG new_ColorExtractor
          [(Num 10, Num 10, Num 10), (Num 10, Num 10, Num 10), (Num 10, Num 10, Num 10),
           (Num 200, Num 200, Num 200), (Num 200, Num 200, Num 200)])
     = [\<lparr>rgb = \<lparr>r = Num 10, g = Num 10, b = Num 10\<rparr>, count = 3,
          hex = ''#0A0A0A'', percentage = ''60.00''\<rparr>,
        \<lparr>rgb = \<lparr>r = Num 200, g = Num 200, b = Num 200\<rparr>, count = 2,
          hex = ''#C8C8C8'', percentage = ''40.00''\<rparr>]
   \<and> fst (extractFromCurrentPage new_ColorExtractor
          [(Num 10, Num 10, Num 10), (Num 10, Num 10, Num 10), (Num 10, Num 10, Num 10),
           (Num 200, Num 200, Num 200), (Num 200, Num 200, Num 200)])
     = [\<lparr>rgb = \<lparr>r = Num 10, g = Num 10, b = Num 10\<rparr>, count = 3,
          hex = ''#0A0A0A'', percentage = ''60.00''\<rparr>,
        \<lparr>rgb = \<lparr>r = Num 200, g = Num 200, b = Num 200\<rparr>, count = 2,
          hex = ''#C8C8C8'', percentage = ''40.00''\<rparr>]"
proof -
  have m: "colorMap (addColors (new_ColorExtractor\<lparr>colorMap := []\<rparr>)
          [(Num 10, Num 10, Num 10), (Num 10, Num 10, Num 10), (Num 10, Num 10, Num 10),
           (Num 200, Num 200, Num 200), (Num 200, Num 200, Num 200)])
       = [(''#0A0A0A'', \<lparr>rgb = \<lparr>r = Num 10, g = Num 10, b = Num 10\<rparr>, count = 3\<rparr>),
          (''#C8C8C8'', \<lparr>rgb = \<lparr>r = Num 200, g = Num 200, b = Num 200\<rparr>, count = 2\<rparr>)]"
    by (simp add: addColors_def addColor_def new_ColorExtractor_def areColorsSimilar_Num
        rgbToHex_10 rgbToHex_200)
  show ?thesis
    unfolding analyzeSVG_def extractFromCurrentPage_def Let_def fst_conv m
    by (simp add: sortColorsByUsage_def calculatePercentages_def totalCount_def percentage_eval)
qed

subsection \<open>The colour map under \<^verbatim>\<open>addColor\<close>\<close>

lemma scanSimilar_eq:
  "scanSimilar c t m =
     (case dropWhile (notSimilarTo c t) m of
        [] \<Rightarrow> (False, m)
      | e # rest \<Rightarrow> (True, takeWhile (notSimilarTo c t) m @ (fst e, (snd e)\<lparr>count := count (snd e) + 1\<rparr>) # rest))"
proof (induction m)
  case Nil
  then show ?case by simp
next
  case (Cons e m)
  obtain k d where e: "e = (k, d)" by (cases e) auto
  show ?case
  proof (cases "areColorsSimilar c (rgb d) t")
    case True
    then show ?thesis by (simp add: e notSimilarTo_def)
  next
    case False
    then have n: "notSimilarTo c t (k, d)" by (simp add: notSimilarTo_def)
    show ?thesis
      using False n Cons.IH
      by (cases "dropWhile (notSimilarTo c t) m") (simp_all add: e del: dropWhile_eq_Nil_conv)
  qed
qed

lemma Map_set_fresh: "k \<notin> fst ` set m \<Longrightarrow> Map_set k v m = m @ [(k, v)]"
  by (induction m) auto

lemma byteChannel_Num: "byteChannel x \<Longrightarrow> \<exists>i. x = Num i \<and> 0 \<le> i \<and> i \<le> 255"
  by (cases x) auto

lemma byteColor_roundtrip:
  assumes "byteColor c"
  shows "hexToRgb (rgbToHex (r c) (g c) (b c)) = c"
proof -
  from assms obtain r1 g1 b1 where
    "r c = Num r1" "g c = Num g1" "b c = Num b1"
    "0 \<le> r1" "r1 \<le> 255" "0 \<le> g1" "g1 \<le> 255" "0 \<le> b1" "b1 \<le> 255"
    unfolding byteColor_def by (metis byteChannel_Num)
  then show ?thesis by (simp add: hexToRgb_rgbToHex)
qed

lemma byteColor_self_similar:
  assumes "byteColor c" "0 < t"
  shows "areColorsSimilar c c t"
proof -
  from assms obtain r1 g1 b1 where
    "r c = Num r1" "g c = Num g1" "b c = Num b1"
    unfolding byteColor_def by (metis byteChannel_Num)
  then have c: "c = \<lparr>r = Num r1, g = Num g1, b = Num b1\<rparr>" by simp
  have "distance c c = Some 0"
    unfolding c using distance_Num [of r1 r1 g1 g1 b1 b1] by (simp add: toDouble_0)
  then show ?thesis using assms(2) by (simp add: areColorsSimilar_def)
qed

lemma key_fresh:
  assumes "keyedByHex m" "byteColor c" "0 < t" "dropWhile (notSimilarTo c t) m = []"
  shows "rgbToHex (r c) (g c) (b c) \<notin> fst ` set m"
proof
  assume "rgbToHex (r c) (g c) (b c) \<in> fst ` set m"
  then obtain e where e: "e \<in> set m" "fst e = rgbToHex (r c) (g c) (b c)" by auto
  from assms(1) e(1) have be: "byteColor (rgb (snd e))"
    and ke: "fst e = rgbToHex (r (rgb (snd e))) (g (rgb (snd e))) (b (rgb (snd e)))"
    by (auto simp: keyedByHex_def list_all_iff)
  from ke e(2) have "hexToRgb (rgbToHex (r c) (g c) (b c))
      = hexToRgb (rgbToHex (r (rgb (snd e))) (g (rgb (snd e))) (b (rgb (snd e))))" by simp
  then have "c = rgb (snd e)" using assms(2) be by (simp add: byteColor_roundtrip)
  then have "areColorsSimilar c (rgb (snd e)) t" using assms(2,3) byteColor_self_similar by simp
  moreover from assms(4) e(1) have "notSimilarTo c t e" by (simp add: dropWhile_eq_Nil_conv)
  ultimately show False by (simp add: notSimilarTo_def)
qed

lemma addColor_colorMap:
  assumes "keyedByHex (colorMap ex)" "byteChannel r0" "byteChannel g0" "byteChannel b0"
    "0 < similarityThreshold ex"
  shows "colorMap (addColor ex r0 g0 b0) =
     (case dropWhile (notSimilarTo \<lparr>r = r0, g = g0, b = b0\<rparr> (similarityThreshold ex)) (colorMap ex) of
        [] \<Rightarrow> colorMap ex @ [(rgbToHex r0 g0 b0, \<lparr>rgb = \<lparr>r = r0, g = g0, b = b0\<rparr>, count = 1\<rparr>)]
      | e # rest \<Rightarrow> takeWhile (notSimilarTo \<lparr>r = r0, g = g0, b = b0\<rparr> (similarityThreshold ex)) (colorMap ex)
            @ (fst e, (snd e)\<lparr>count := count (snd e) + 1\<rparr>) # rest)"
proof (cases "dropWhile (notSimilarTo \<lparr>r = r0, g = g0, b = b0\<rparr> (similarityThreshold ex)) (colorMap ex)")
  case Nil
  have "byteColor \<lparr>r = r0, g = g0, b = b0\<rparr>" using assms by (simp add: byteColor_def)
  from key_fresh [OF assms(1) this assms(5) Nil]
  have "rgbToHex r0 g0 b0 \<notin> fst ` set (colorMap ex)" by simp
  then show ?thesis using Nil by (simp add: addColor_def Let_def scanSimilar_eq Map_set_fresh del: dropWhile_eq_Nil_conv)
next
  case (Cons e rest)
  then show ?thesis by (simp add: addColor_def Let_def scanSimilar_eq)
qed

lemma addColor_threshold [simp]: "similarityThreshold (addColor ex r0 g0 b0) = similarityThreshold ex"
  by (simp add: addColor_def Let_def split: prod.splits)

lemma takeWhile_dropWhile_all:
  "list_all P m \<Longrightarrow> list_all P (takeWhile Q m) \<and> list_all P (dropWhile Q m)"
  by (induction m) auto

lemma addColor_keyedByHex:
  assumes "keyedByHex (colorMap ex)" "byteChannel r0" "byteChannel g0" "byteChannel b0"
    "0 < similarityThreshold ex"
  shows "keyedByHex (colorMap (addColor ex r0 g0 b0))"
proof -
  let ?P = "\<lambda>e. byteColor (rgb (snd e))
       \<and> fst e = rgbToHex (r (rgb (snd e))) (g (rgb (snd e))) (b (rgb (snd e)))"
  let ?Q = "notSimilarTo \<lparr>r = r0, g = g0, b = b0\<rparr> (similarityThreshold ex)"
  have all: "list_all ?P (colorMap ex)" using assms(1) by (simp add: keyedByHex_def)
  then have td: "list_all ?P (takeWhile ?Q (colorMap ex))" "list_all ?P (dropWhile ?Q (colorMap ex))"
    using takeWhile_dropWhile_all by blast+
  show ?thesis
    unfolding addColor_colorMap [OF assms] keyedByHex_def
    using all td assms(2-4)
    by (auto simp: byteColor_def split: list.splits)
qed

lemma addColor_totalOfMap:
  assumes "keyedByHex (colorMap ex)" "byteChannel r0" "byteChannel g0" "byteChannel b0"
    "0 < similarityThreshold ex"
  shows "totalOfMap (colorMap (addColor ex r0 g0 b0)) = totalOfMap (colorMap ex) + 1"
proof -
  let ?Q = "notSimilarTo \<lparr>r = r0, g = g0, b = b0\<rparr> (similarityThreshold ex)"
  have "totalOfMap (colorMap ex) = totalOfMap (takeWhile ?Q (colorMap ex)) + totalOfMap (dropWhile ?Q (colorMap ex))"
    unfolding totalOfMap_def by (metis map_append sum_list_append takeWhile_dropWhile_id)
  then show ?thesis
    unfolding addColor_colorMap [OF assms]
    by (auto simp: totalOfMap_def split: list.splits)
qed

lemma addColors_invariant:
  assumes "keyedByHex (colorMap ex)" "list_all byteObservation obs" "0 < similarityThreshold ex"
  shows "keyedByHex (colorMap (addColors ex obs))
       \<and> totalOfMap (colorMap (addColors ex obs)) = totalOfMap (colorMap ex) + length obs
       \<and> similarityThreshold (addColors ex obs) = similarityThreshold ex"
  using assms
proof (induction obs arbitrary: ex)
  case Nil
  then show ?case by (simp add: addColors_def)
next
  case (Cons ob obs)
  obtain r0 g0 b0 where ob: "ob = (r0, g0, b0)" by (cases ob) auto
  with Cons.prems have bc: "byteChannel r0" "byteChannel g0" "byteChannel b0"
    by (simp_all add: byteObservation_def)
  have step: "addColors ex (ob # obs) = addColors (addColor ex r0 g0 b0) obs"
    by (simp add: addColors_def ob)
  have k: "keyedByHex (colorMap (addColor ex r0 g0 b0))"
    using addColor_keyedByHex [OF Cons.prems(1) bc Cons.prems(3)] .
  have t: "totalOfMap (colorMap (addColor ex r0 g0 b0)) = totalOfMap (colorMap ex) + 1"
    using addColor_totalOfMap [OF Cons.prems(1) bc Cons.prems(3)] .
  from Cons.IH [OF k] Cons.prems show ?case by (simp add: step t)
qed

lemma keyedByHex_Nil: "keyedByHex []" by (simp add: keyedByHex_def)

lemma hex_256_1_0: "rgbToHex (Num 256) (Num 1) (Num 0) = ''#1000100''"
  by (simp add: string_eval)

lemma hex_16_0_256: "rgbToHex (Num 16) (Num 0) (Num 256) = ''#1000100''"
  by (simp add: string_eval)

lemma hex_256_0_256: "rgbToHex (Num 256) (Num 0) (Num 256) = ''#10000100''"
  by (simp add: string_eval)

lemma hex_4096_1_0: "rgbToHex (Num 4096) (Num 1) (Num 0) = ''#10000100''"
  by (simp add: string_eval)

text \<open>
  Claim C1, as the specification states it: for every observation, the first similar
  cluster in insertion order is incremented, and otherwise a new cluster keyed by
  \<^verbatim>\<open>rgbToHex\<close> is created, no representative ever changing. \<^verbatim>\<open>rgbToHex\<close> does not clamp, so
  two colours with a channel above 255 can share a key: after \<open>(256, 0, 256)\<close>, the
  observation \<open>(4096, 1, 0)\<close> is similar to no cluster, and \<^verbatim>\<open>Map.set\<close> replaces the one
  cluster under the key \<^verbatim>\<open>#10000100\<close>: no cluster is created and the representative
  changes. \<^verbatim>\<open>analyzeSVG\<close> passes such channels on, from \<^verbatim>\<open>fill="rgb(4096,1,0)"\<close>.
\<close>

theorem representative_replaced_on_key_collision:
  "colorMap (addColors (new_ColorExtractor\<lparr>colorMap := []\<rparr>) [(Num 256, Num 0, Num 256)])
      = [(''#10000100'', \<lparr>rgb = \<lparr>r = Num 256, g = Num 0, b = Num 256\<rparr>, count = 1\<rparr>)]
   \<and> \<not> areColorsSimilar \<lparr>r = Num 4096, g = Num 1, b = Num 0\<rparr> \<lparr>r = Num 256, g = Num 0, b = Num 256\<rparr> 30
   \<and> colorMap (addColor (addColors (new_ColorExtractor\<lparr>colorMap := []\<rparr>) [(Num 256, Num 0, Num 256)])
         (Num 4096) (Num 1) (Num 0))
      = [(''#10000100'', \<lparr>rgb = \<lparr>r = Num 4096, g = Num 1, b = Num 0\<rparr>, count = 1\<rparr>)]"
  by (simp add: addColors_def addColor_def new_ColorExtractor_def areColorsSimilar_Num
      hex_256_0_256 hex_4096_1_0)

text \<open>
  Claim C1, amended: for observations whose channels are integers in \<open>[0, 255]\<close>, added
  to a cleared map of an extractor with threshold 30. The new map is the old one with the
  count of the first cluster similar to the observation incremented by 1 and everything
  else as it was; when no cluster is similar, it is the old map with a cluster of count 1
  appended, keyed by \<^verbatim>\<open>rgbToHex\<close> and represented by the observation. In both cases the
  keys and the representatives of the old clusters stay where they were.
\<close>

theorem addColor_first_similar_or_new:
  assumes "list_all byteObservation obs" and "byteObservation (r0, g0, b0)"
    and "similarityThreshold ex0 = 30"
  shows "(let ex = addColors (ex0\<lparr>colorMap := []\<rparr>) obs;
              rgb0 = \<lparr>r = r0, g = g0, b = b0\<rparr>;
              m = colorMap ex;
              m' = colorMap (addColor ex r0 g0 b0)
          in m' = (case dropWhile (notSimilarTo rgb0 30) m of
                     [] \<Rightarrow> m @ [(rgbToHex r0 g0 b0, \<lparr>rgb = rgb0, count = 1\<rparr>)]
                   | e # rest \<Rightarrow> takeWhile (notSimilarTo rgb0 30) m
                        @ (fst e, (snd e)\<lparr>count := count (snd e) + 1\<rparr>) # rest)
             \<and> take (length m) (representatives m') = representatives m)"
proof -
  let ?ex = "addColors (ex0\<lparr>colorMap := []\<rparr>) obs"
  let ?Q = "notSimilarTo \<lparr>r = r0, g = g0, b = b0\<rparr> 30"
  have inv: "keyedByHex (colorMap ?ex)" "similarityThreshold ?ex = 30"
    using addColors_invariant [of "ex0\<lparr>colorMap := []\<rparr>" obs] assms
    by (simp_all add: keyedByHex_Nil)
  have bc: "byteChannel r0" "byteChannel g0" "byteChannel b0"
    using assms(2) by (simp_all add: byteObservation_def)
  have pos: "0 < similarityThreshold ?ex" using inv(2) by simp
  have eq: "colorMap (addColor ?ex r0 g0 b0) =
     (case dropWhile ?Q (colorMap ?ex) of
        [] \<Rightarrow> colorMap ?ex @ [(rgbToHex r0 g0 b0, \<lparr>rgb = \<lparr>r = r0, g = g0, b = b0\<rparr>, count = 1\<rparr>)]
      | e # rest \<Rightarrow> takeWhile ?Q (colorMap ?ex) @ (fst e, (snd e)\<lparr>count := count (snd e) + 1\<rparr>) # rest)"
    using addColor_colorMap [OF inv(1) bc pos] unfolding inv(2) .
  have split: "colorMap ?ex = takeWhile ?Q (colorMap ?ex) @ dropWhile ?Q (colorMap ?ex)" by simp
  have reps: "take (length (colorMap ?ex)) (representatives (colorMap (addColor ?ex r0 g0 b0)))
      = representatives (colorMap ?ex)"
  proof (cases "dropWhile ?Q (colorMap ?ex)")
    case Nil
    then show ?thesis unfolding eq by (simp add: representatives_def del: dropWhile_eq_Nil_conv)
  next
    case (Cons e rest)
    have "representatives (colorMap ?ex)
        = representatives (takeWhile ?Q (colorMap ?ex)) @ (fst e, rgb (snd e)) # representatives rest"
      by (subst split) (simp add: Cons representatives_def del: takeWhile_dropWhile_id)
    moreover have "representatives (colorMap (addColor ?ex r0 g0 b0))
        = representatives (takeWhile ?Q (colorMap ?ex)) @ (fst e, rgb (snd e)) # representatives rest"
      unfolding eq by (simp add: Cons representatives_def)
    moreover have "length (colorMap ?ex) = length (representatives (colorMap ?ex))"
      by (simp add: representatives_def)
    ultimately show ?thesis by simp
  qed
  show ?thesis unfolding Let_def using eq reps by simp
qed

theorem addColor_first_similar_or_new_witness:
  "list_all byteObservation [(Num 10, Num 10, Num 10), (Num 200, Num 200, Num 200)]
   \<and> byteObservation (Num 205, Num 200, Num 200)
   \<and> similarityThreshold new_ColorExtractor = 30
   \<and> colorMap (addColor (addColors (new_ColorExtractor\<lparr>colorMap := []\<rparr>)
          [(Num 10, Num 10, Num 10), (Num 200, Num 200, Num 200)]) (Num 205) (Num 200) (Num 200))
      = [(''#0A0A0A'', \<lparr>rgb = \<lparr>r = Num 10, g = Num 10, b = Num 10\<rparr>, count = 1\<rparr>),
         (''#C8C8C8'', \<lparr>rgb = \<lparr>r = Num 200, g = Num 200, b = Num 200\<rparr>, count = 2\<rparr>)]"
proof -
  have m: "colorMap (addColors (new_ColorExtractor\<lparr>colorMap := []\<rparr>)
          [(Num 10, Num 10, Num 10), (Num 200, Num 200, Num 200)])
      = [(''#0A0A0A'', \<lparr>rgb = \<lparr>r = Num 10, g = Num 10, b = Num 10\<rparr>, count = 1\<rparr>),
         (''#C8C8C8'', \<lparr>rgb = \<lparr>r = Num 200, g = Num 200, b = Num 200\<rparr>, count = 1\<rparr>)]"
    by (simp add: addColors_def addColor_def new_ColorExtractor_def areColorsSimilar_Num
        rgbToHex_10 rgbToHex_200)
  have a: "list_all byteObservation [(Num 10, Num 10, Num 10), (Num 200, Num 200, Num 200)]"
    and b: "byteObservation (Num 205, Num 200, Num 200)"
    and c: "similarityThreshold new_ColorExtractor = 30"
    by (simp_all add: byteObservation_def new_ColorExtractor_def)
  from addColor_first_similar_or_new [OF a b c] a b c show ?thesis
    unfolding Let_def m by (simp add: notSimilarTo_def areColorsSimilar_Num)
qed

text \<open>
  Claim C10, as stated: after \<open>n\<close> calls of \<^verbatim>\<open>addColor\<close> on a cleared map the counts sum to
  \<open>n\<close>. The two observations \<open>(256, 1, 0)\<close> and \<open>(16, 0, 256)\<close> are not similar and share the
  key \<^verbatim>\<open>#1000100\<close>; the second replaces the first, and the counts sum to 1.
\<close>

theorem counts_lost_on_key_collision:
  "length [(Num 256, Num 1, Num 0), (Num 16, Num 0, Num (256::int))] = 2
   \<and> colorMap (addColors (new_ColorExtractor\<lparr>colorMap := []\<rparr>)
        [(Num 256, Num 1, Num 0), (Num 16, Num 0, Num 256)])
      = [(''#1000100'', \<lparr>rgb = \<lparr>r = Num 16, g = Num 0, b = Num 256\<rparr>, count = 1\<rparr>)]
   \<and> totalOfMap (colorMap (addColors (new_ColorExtractor\<lparr>colorMap := []\<rparr>)
        [(Num 256, Num 1, Num 0), (Num 16, Num 0, Num 256)])) = 1"
  by (simp add: addColors_def addColor_def new_ColorExtractor_def areColorsSimilar_Num
      hex_256_1_0 hex_16_0_256 totalOfMap_def)

text \<open>
  Claim C10, amended: after \<open>n\<close> calls of \<^verbatim>\<open>addColor\<close> with integer channels in \<open>[0, 255]\<close>
  on a cleared map (threshold 30, as the constructor sets it), the counts of the clusters
  sum to \<open>n\<close>.
\<close>

theorem counts_sum_to_number_of_observations:
  assumes "list_all byteObservation obs" and "similarityThreshold ex = 30"
  shows "totalOfMap (colorMap (addColors (ex\<lparr>colorMap := []\<rparr>) obs)) = length obs"
  using addColors_invariant [of "ex\<lparr>colorMap := []\<rparr>" obs] assms
  by (simp add: keyedByHex_Nil totalOfMap_def)

theorem counts_sum_to_number_of_observations_witness:
  "list_all byteObservation
     [(Num 10, Num 10, Num 10), (Num 10, Num 10, Num 10), (Num 10, Num 10, Num 10),
      (Num 200, Num 200, Num 200), (Num 200, Num 200, Num 200)]
   \<and> similarityThreshold new_ColorExtractor = 30
   \<and> totalOfMap (colorMap (addColors (new_ColorExtractor\<lparr>colorMap := []\<rparr>)
     [(Num 10, Num 10, Num 10), (Num 10, Num 10, Num 10), (Num 10, Num 10, Num 10),
      (Num 200, Num 200, Num 200), (Num 200, Num 200, Num 200)])) = 5"
  using counts_sum_to_number_of_observations [of
     "[(Num 10, Num 10, Num 10), (Num 10, Num 10, Num 10), (Num 10, Num 10, Num 10),
      (Num 200, Num 200, Num 200), (Num 200, Num 200, Num 200)]" new_ColorExtractor]
  by (simp add: byteObservation_def new_ColorExtractor_def)

subsection \<open>The manual colour list\<close>

text \<open>
  Claim C7, as the specification states it: the uniqueness check compares the exact
  string, so that a hex in another case is not deduplicated. \<^verbatim>\<open>addSingleColor\<close> converts its
  argument to upper case before it compares: \<^verbatim>\<open>#ff0000\<close> is not in the list as a string, and
  yet it is reported as present and the list is unchanged.
\<close>

theorem addSingleColor_deduplicates_other_case:
  "''#ff0000'' \<notin> hex ` set [\<lparr>rgb = \<lparr>r = Num 255, g = Num 0, b = Num 0\<rparr>, count = 7,
                                hex = ''#FF0000'', percentage = ''100.00''\<rparr>]
   \<and> addSingleColor ''#ff0000''
        [\<lparr>rgb = \<lparr>r = Num 255, g = Num 0, b = Num 0\<rparr>, count = 7, hex = ''#FF0000'', percentage = ''100.00''\<rparr>]
     = ([\<lparr>rgb = \<lparr>r = Num 255, g = Num 0, b = Num 0\<rparr>, count = 7, hex = ''#FF0000'', percentage = ''100.00''\<rparr>],
        Some ''Color already in the list'')"
  by (simp add: addSingleColor_def toUpperCase_def toUpperChar_def char_of_def bit_iff_odd)

text \<open>
  Claim C7, amended: the argument, in upper case, is compared with the hex strings of the
  list by string equality. When it is among them, the list is unchanged and the toast
  \<^verbatim>\<open>Color already in the list\<close> is shown; otherwise an entry with that upper-case hex,
  count 1 and percentage \<^verbatim>\<open>100.00\<close> is put in front. No distance is involved, so a hex with
  another value is never deduplicated, however similar the colour; and a list with distinct
  hex strings keeps them distinct.
\<close>

theorem addSingleColor_exact_upper_case_match:
  "(toUpperCase h \<in> hex ` set cur \<longrightarrow>
      addSingleColor h cur = (cur, Some ''Color already in the list''))
   \<and> (toUpperCase h \<notin> hex ` set cur \<longrightarrow>
      addSingleColor h cur =
        (\<lparr>rgb = hexToRgb h, count = 1, hex = toUpperCase h, percentage = ''100.00''\<rparr> # cur, None))
   \<and> (distinct (map hex cur) \<longrightarrow> distinct (map hex (fst (addSingleColor h cur))))"
proof -
  have ex: "list_ex (\<lambda>c. hex c = toUpperCase h) cur \<longleftrightarrow> toUpperCase h \<in> hex ` set cur"
    unfolding list_ex_iff image_iff by (rule bex_cong) auto
  show ?thesis
    by (simp add: addSingleColor_def Let_def ex)
qed

theorem addSingleColor_exact_upper_case_match_witness:
  "toUpperCase ''#ff0000''
      \<in> hex ` set [\<lparr>rgb = \<lparr>r = Num 255, g = Num 0, b = Num 0\<rparr>, count = 7,
                      hex = ''#FF0000'', percentage = ''60.00''\<rparr>]
   \<and> addSingleColor ''#ff0000''
        [\<lparr>rgb = \<lparr>r = Num 255, g = Num 0, b = Num 0\<rparr>, count = 7,
           hex = ''#FF0000'', percentage = ''60.00''\<rparr>]
     = ([\<lparr>rgb = \<lparr>r = Num 255, g = Num 0, b = Num 0\<rparr>, count = 7,
           hex = ''#FF0000'', percentage = ''60.00''\<rparr>],
        Some ''Color already in the list'')
   \<and> toUpperCase ''#fe0000''
      \<notin> hex ` set [\<lparr>rgb = \<lparr>r = Num 255, g = Num 0, b = Num 0\<rparr>, count = 7,
                      hex = ''#FF0000'', percentage = ''60.00''\<rparr>]
   \<and> addSingleColor ''#fe0000''
        [\<lparr>rgb = \<lparr>r = Num 255, g = Num 0, b = Num 0\<rparr>, count = 7,
           hex = ''#FF0000'', percentage = ''60.00''\<rparr>]
     = ([\<lparr>rgb = hexToRgb ''#fe0000'', count = 1, hex = ''#FE0000'', percentage = ''100.00''\<rparr>,
         \<lparr>rgb = \<lparr>r = Num 255, g = Num 0, b = Num 0\<rparr>, count = 7,
           hex = ''#FF0000'', percentage = ''60.00''\<rparr>],
        None)
   \<and> hexToRgb ''#fe0000'' = \<lparr>r = Num 254, g = Num 0, b = Num 0\<rparr>"
proof -
  let ?cur = "[\<lparr>rgb = \<lparr>r = Num 255, g = Num 0, b = Num 0\<rparr>, count = 7,
                 hex = ''#FF0000'', percentage = ''60.00''\<rparr>]"
  have u1: "toUpperCase ''#ff0000'' = ''#FF0000''" and u2: "toUpperCase ''#fe0000'' = ''#FE0000''"
    by (simp_all add: toUpperCase_def toUpperChar_def char_of_def bit_iff_odd)
  have a: "toUpperCase ''#ff0000'' \<in> hex ` set ?cur" and b: "toUpperCase ''#fe0000'' \<notin> hex ` set ?cur"
    by (simp_all add: u1 u2)
  have c: "hexToRgb ''#fe0000'' = \<lparr>r = Num 254, g = Num 0, b = Num 0\<rparr>"
    by (simp add: hexToRgb_def substring_def parseInt16_def isStrWhiteSpaceChar_def
        isHexDigit_def hexDigitValue_def hexValue_def)
  from addSingleColor_exact_upper_case_match [of "''#ff0000''" ?cur] a
  have d: "addSingleColor ''#ff0000'' ?cur = (?cur, Some ''Color already in the list'')"
    by blast
  from addSingleColor_exact_upper_case_match [of "''#fe0000''" ?cur] b
  have e: "addSingleColor ''#fe0000'' ?cur =
      (\<lparr>rgb = hexToRgb ''#fe0000'', count = 1, hex = toUpperCase ''#fe0000'',
         percentage = ''100.00''\<rparr> # ?cur, None)"
    by blast
  from a b c d e show ?thesis by (simp only: u2) simp
qed

subsection \<open>Percentages and their sum\<close>

lemma digitChar_value: "d < 10 \<Longrightarrow> of_char (digitChar d) - 48 = (d::nat)"
  by (simp add: digitChar_def)

lemma digitChar_not_dot: "d < 10 \<Longrightarrow> digitChar d \<noteq> CHR ''.''"
proof
  assume "d < 10" and "digitChar d = CHR ''.''"
  then have "(of_char (digitChar d) :: nat) = of_char CHR ''.''" by simp
  with \<open>d < 10\<close> show False by (simp add: digitChar_def)
qed

lemma natToString10_no_dot: "filter (\<lambda>c. c \<noteq> CHR ''.'') (natToString10 n) = natToString10 n"
proof (induction n rule: natToString10.induct)
  case (1 n)
  show ?case
  proof (cases "n < 10")
    case True
    then show ?thesis by (subst (1 2) natToString10.simps) (simp add: digitChar_not_dot)
  next
    case False
    then show ?thesis
      using 1 by (subst (1 2) natToString10.simps) (simp add: digitChar_not_dot)
  qed
qed

lemma natToString10_value:
  "foldl (\<lambda>a c. 10 * a + (of_char c - 48)) 0 (natToString10 n) = n"
proof (induction n rule: natToString10.induct)
  case (1 n)
  show ?case
  proof (cases "n < 10")
    case True
    then show ?thesis by (subst natToString10.simps) (simp add: digitChar_value)
  next
    case False
    then show ?thesis
      using 1 by (subst natToString10.simps) (simp add: digitChar_value)
  qed
qed

lemma decimal_split: "10 * (10 * (h div 100) + h mod 100 div 10) + h mod 10 = (h::nat)"
proof -
  have a: "h div 100 = h div 10 div 10" using div_mult2_eq [of h 10 10] by simp
  have "h mod 100 = 10 * (h div 10 mod 10) + h mod 10" using mod_mult2_eq [of h 10 10] by simp
  then have b: "h mod 100 div 10 = h div 10 mod 10" by simp
  have "10 * (10 * (h div 10 div 10) + h div 10 mod 10) + h mod 10 = 10 * (h div 10) + h mod 10"
    by (simp only: mult_div_mod_eq)
  also have "\<dots> = h" by (simp only: mult_div_mod_eq)
  finally show ?thesis by (simp only: a b)
qed

lemma percentageHundredths_percentageOf:
  assumes "0 < t"
  shows "percentageHundredths (percentageOf c t) = hundredths (percentValue c t)"
proof -
  let ?h = "hundredths (percentValue c t)"
  have "percentageHundredths (percentageOf c t)
      = foldl (\<lambda>a c. 10 * a + (of_char c - 48)) 0
          (natToString10 (?h div 100) @ [digitChar (?h mod 100 div 10), digitChar (?h mod 10)])"
    using assms
    by (simp add: percentageHundredths_def percentageOf_def toFixed2_def Let_def
        natToString10_no_dot digitChar_not_dot)
  also have "\<dots> = 10 * (10 * (?h div 100) + ?h mod 100 div 10) + ?h mod 10"
    by (simp add: natToString10_value digitChar_value)
  also have "\<dots> = ?h" by (rule decimal_split)
  finally show ?thesis .
qed

lemma totalCount_sum: "totalCount colors = sum_list (map count colors)"
proof -
  have "foldl (\<lambda>sum c. sum + count c) a colors = a + sum_list (map count colors)" for a
    by (induction colors arbitrary: a) simp_all
  then show ?thesis by (simp add: totalCount_def)
qed

lemma sum_list_insort_key: "sum_list (map f (insort_key k x xs)) = f x + sum_list (map f (xs::'a list))"
  for f :: "'a \<Rightarrow> nat"
  by (induction xs) simp_all

lemma sum_list_sort_key: "sum_list (map f (sort_key k xs)) = sum_list (map f xs)"
  for f :: "'a \<Rightarrow> nat"
  by (induction xs) (simp_all add: sum_list_insort_key)

lemma percentageSum_calculatePercentages:
  assumes "0 < sum_list (map count colors)"
  shows "sumsTo100 (calculatePercentages colors)"
proof -
  define t where "t = sum_list (map count colors)"
  have t0: "0 < t" using assms by (simp only: t_def)
  have "percentageSum (calculatePercentages colors)
      = sum_list (map (\<lambda>c. hundredths (percentValue c t)) (map count colors))"
    using t0
    by (simp add: percentageSum_def calculatePercentages_def Let_def totalCount_sum o_def
        percentageHundredths_percentageOf t_def [symmetric])
  moreover have "length (calculatePercentages colors) = length (map count colors)"
    by (simp add: calculatePercentages_def Let_def)
  ultimately show ?thesis
    using rounding_total [of "map count colors" t] t0 by (simp add: sumsTo100_def t_def)
qed

lemma sortColorsByUsage_counts:
  "sum_list (map count (sortColorsByUsage m)) = sum_list (map (\<lambda>e. count (snd e)) m)"
  by (simp add: sortColorsByUsage_def sum_list_sort_key o_def case_prod_unfold)

lemma length_fullPalette: "length (fullPalette ex) = length (colorMap ex)"
  by (simp add: fullPalette_def calculatePercentages_def Let_def sortColorsByUsage_def)

lemma positiveCounts_sum: "positiveCounts m \<Longrightarrow> m \<noteq> [] \<Longrightarrow> 0 < sum_list (map (\<lambda>e. count (snd e)) m)"
  by (cases m) (simp_all add: positiveCounts_def)

lemma fullPalette_sumsTo100:
  assumes "positiveCounts (colorMap ex)" "colorMap ex \<noteq> []"
  shows "sumsTo100 (fullPalette ex)"
  unfolding fullPalette_def
  using positiveCounts_sum [OF assms]
  by (intro percentageSum_calculatePercentages) (simp add: sortColorsByUsage_counts)

lemma Map_set_positive: "positiveCounts m \<Longrightarrow> 0 < count v \<Longrightarrow> positiveCounts (Map_set k v m)"
  by (induction m) (auto simp: positiveCounts_def)

lemma scanSimilar_positive: "positiveCounts m \<Longrightarrow> positiveCounts (snd (scanSimilar c t m))"
  by (induction m) (auto simp: positiveCounts_def split: prod.splits)

lemma addColor_positive:
  assumes "positiveCounts (colorMap ex)"
  shows "positiveCounts (colorMap (addColor ex r0 g0 b0))"
proof -
  obtain found m where s: "scanSimilar \<lparr>r = r0, g = g0, b = b0\<rparr> (similarityThreshold ex) (colorMap ex) = (found, m)"
    by (cases "scanSimilar \<lparr>r = r0, g = g0, b = b0\<rparr> (similarityThreshold ex) (colorMap ex)") auto
  with scanSimilar_positive [OF assms, of "\<lparr>r = r0, g = g0, b = b0\<rparr>" "similarityThreshold ex"]
  have "positiveCounts m" by simp
  then show ?thesis by (simp add: addColor_def Let_def s Map_set_positive)
qed

lemma addColors_positive:
  "positiveCounts (colorMap ex) \<Longrightarrow> positiveCounts (colorMap (addColors ex obs))"
proof (induction obs arbitrary: ex)
  case Nil
  then show ?case by (simp add: addColors_def)
next
  case (Cons ob obs)
  obtain r0 g0 b0 where ob: "ob = (r0, g0, b0)" by (cases ob) auto
  have "addColors ex (ob # obs) = addColors (addColor ex r0 g0 b0) obs"
    by (simp add: addColors_def ob)
  then show ?case using Cons.IH [OF addColor_positive [OF Cons.prems]] by simp
qed

lemma samplePixel_positive:
  "positiveCounts (colorMap ex) \<Longrightarrow> positiveCounts (colorMap (samplePixel ex p))"
  by (cases p) (simp add: samplePixel_def Let_def addColor_positive)

lemma sampleLoop_positive:
  "positiveCounts (colorMap ex) \<Longrightarrow> positiveCounts (colorMap (sampleLoop ex ps))"
  by (induction ex ps rule: sampleLoop.induct) (simp_all add: samplePixel_positive)

lemma positiveCounts_Nil: "positiveCounts []" by (simp add: positiveCounts_def)

lemma take_fullPalette: "length (colorMap ex) \<le> n \<Longrightarrow> take n (fullPalette ex) = fullPalette ex"
  by (simp add: length_fullPalette)

lemma fullPalette_Nil_iff: "fullPalette ex = [] \<longleftrightarrow> colorMap ex = []"
  using length_fullPalette [of ex] by (metis length_0_conv)

subsection \<open>A page with 31 colours\<close>

lemma page_hex:
  "rgbToHex (Num 0) (Num 0) (Num 0) = ''#000000''"
  "rgbToHex (Num 40) (Num 0) (Num 0) = ''#280000''"
  "rgbToHex (Num 80) (Num 0) (Num 0) = ''#500000''"
  "rgbToHex (Num 120) (Num 0) (Num 0) = ''#780000''"
  "rgbToHex (Num 160) (Num 0) (Num 0) = ''#A00000''"
  "rgbToHex (Num 200) (Num 0) (Num 0) = ''#C80000''"
  "rgbToHex (Num 240) (Num 0) (Num 0) = ''#F00000''"
  "rgbToHex (Num 0) (Num 40) (Num 0) = ''#002800''"
  "rgbToHex (Num 40) (Num 40) (Num 0) = ''#282800''"
  "rgbToHex (Num 80) (Num 40) (Num 0) = ''#502800''"
  "rgbToHex (Num 120) (Num 40) (Num 0) = ''#782800''"
  "rgbToHex (Num 160) (Num 40) (Num 0) = ''#A02800''"
  "rgbToHex (Num 200) (Num 40) (Num 0) = ''#C82800''"
  "rgbToHex (Num 240) (Num 40) (Num 0) = ''#F02800''"
  "rgbToHex (Num 0) (Num 80) (Num 0) = ''#005000''"
  "rgbToHex (Num 40) (Num 80) (Num 0) = ''#285000''"
  "rgbToHex (Num 80) (Num 80) (Num 0) = ''#505000''"
  "rgbToHex (Num 120) (Num 80) (Num 0) = ''#785000''"
  "rgbToHex (Num 160) (Num 80) (Num 0) = ''#A05000''"
  "rgbToHex (Num 200) (Num 80) (Num 0) = ''#C85000''"
  "rgbToHex (Num 240) (Num 80) (Num 0) = ''#F05000''"
  "rgbToHex (Num 0) (Num 120) (Num 0) = ''#007800''"
  "rgbToHex (Num 40) (Num 120) (Num 0) = ''#287800''"
  "rgbToHex (Num 80) (Num 120) (Num 0) = ''#507800''"
  "rgbToHex (Num 120) (Num 120) (Num 0) = ''#787800''"
  "rgbToHex (Num 160) (Num 120) (Num 0) = ''#A07800''"
  "rgbToHex (Num 200) (Num 120) (Num 0) = ''#C87800''"
  "rgbToHex (Num 240) (Num 120) (Num 0) = ''#F07800''"
  "rgbToHex (Num 0) (Num 160) (Num 0) = ''#00A000''"
  "rgbToHex (Num 40) (Num 160) (Num 0) = ''#28A000''"
  "rgbToHex (Num 80) (Num 160) (Num 0) = ''#50A000''"
  by (simp_all add: string_eval)

lemma page_colorMap:
  "colorMap (addColors (new_ColorExtractor\<lparr>colorMap := []\<rparr>) page_observations) = [
      (''#000000'', \<lparr>rgb = \<lparr>r = Num 0, g = Num 0, b = Num 0\<rparr>, count = 1\<rparr>),
      (''#280000'', \<lparr>rgb = \<lparr>r = Num 40, g = Num 0, b = Num 0\<rparr>, count = 1\<rparr>),
      (''#500000'', \<lparr>rgb = \<lparr>r = Num 80, g = Num 0, b = Num 0\<rparr>, count = 1\<rparr>),
      (''#780000'', \<lparr>rgb = \<lparr>r = Num 120, g = Num 0, b = Num 0\<rparr>, count = 1\<rparr>),
      (''#A00000'', \<lparr>rgb = \<lparr>r = Num 160, g = Num 0, b = Num 0\<rparr>, count = 1\<rparr>),
      (''#C80000'', \<lparr>rgb = \<lparr>r = Num 200, g = Num 0, b = Num 0\<rparr>, count = 1\<rparr>),
      (''#F00000'', \<lparr>rgb = \<lparr>r = Num 240, g = Num 0, b = Num 0\<rparr>, count = 1\<rparr>),
      (''#002800'', \<lparr>rgb = \<lparr>r = Num 0, g = Num 40, b = Num 0\<rparr>, count = 1\<rparr>),
      (''#282800'', \<lparr>rgb = \<lparr>r = Num 40, g = Num 40, b = Num 0\<rparr>, count = 1\<rparr>),
      (''#502800'', \<lparr>rgb = \<lparr>r = Num 80, g = Num 40, b = Num 0\<rparr>, count = 1\<rparr>),
      (''#782800'', \<lparr>rgb = \<lparr>r = Num 120, g = Num 40, b = Num 0\<rparr>, count = 1\<rparr>),
      (''#A02800'', \<lparr>rgb = \<lparr>r = Num 160, g = Num 40, b = Num 0\<rparr>, count = 1\<rparr>),
      (''#C82800'', \<lparr>rgb = \<lparr>r = Num 200, g = Num 40, b = Num 0\<rparr>, count = 1\<rparr>),
      (''#F02800'', \<lparr>rgb = \<lparr>r = Num 240, g = Num 40, b = Num 0\<rparr>, count = 1\<rparr>),
      (''#005000'', \<lparr>rgb = \<lparr>r = Num 0, g = Num 80, b = Num 0\<rparr>, count = 1\<rparr>),
      (''#285000'', \<lparr>rgb = \<lparr>r = Num 40, g = Num 80, b = Num 0\<rparr>, count = 1\<rparr>),
      (''#505000'', \<lparr>rgb = \<lparr>r = Num 80, g = Num 80, b = Num 0\<rparr>, count = 1\<rparr>),
      (''#785000'', \<lparr>rgb = \<lparr>r = Num 120, g = Num 80, b = Num 0\<rparr>, count = 1\<rparr>),
      (''#A05000'', \<lparr>rgb = \<lparr>r = Num 160, g = Num 80, b = Num 0\<rparr>, count = 1\<rparr>),
      (''#C85000'', \<lparr>rgb = \<lparr>r = Num 200, g = Num 80, b = Num 0\<rparr>, count = 1\<rparr>),
      (''#F05000'', \<lparr>rgb = \<lparr>r = Num 240, g = Num 80, b = Num 0\<rparr>, count = 1\<rparr>),
      (''#007800'', \<lparr>rgb = \<lparr>r = Num 0, g = Num 120, b = Num 0\<rparr>, count = 1\<rparr>),
      (''#287800'', \<lparr>rgb = \<lparr>r = Num 40, g = Num 120, b = Num 0\<rparr>, count = 1\<rparr>),
      (''#507800'', \<lparr>rgb = \<lparr>r = Num 80, g = Num 120, b = Num 0\<rparr>, count = 1\<rparr>),
      (''#787800'', \<lparr>rgb = \<lparr>r = Num 120, g = Num 120, b = Num 0\<rparr>, count = 1\<rparr>),
      (''#A07800'', \<lparr>rgb = \<lparr>r = Num 160, g = Num 120, b = Num 0\<rparr>, count = 1\<rparr>),
      (''#C87800'', \<lparr>rgb = \<lparr>r = Num 200, g = Num 120, b = Num 0\<rparr>, count = 1\<rparr>),
      (''#F07800'', \<lparr>rgb = \<lparr>r = Num 240, g = Num 120, b = Num 0\<rparr>, count = 1\<rparr>),
      (''#00A000'', \<lparr>rgb = \<lparr>r = Num 0, g = Num 160, b = Num 0\<rparr>, count = 1\<rparr>),
      (''#28A000'', \<lparr>rgb = \<lparr>r = Num 40, g = Num 160, b = Num 0\<rparr>, count = 1\<rparr>),
      (''#50A000'', \<lparr>rgb = \<lparr>r = Num 80, g = Num 160, b = Num 0\<rparr>, count = 3\<rparr>)]"
  unfolding page_observations_def
  by (simp add: addColors_def addColor_def new_ColorExtractor_def areColorsSimilar_Num page_hex)

lemma page_palette:
  "fullPalette (addColors (new_ColorExtractor\<lparr>colorMap := []\<rparr>) page_observations) = [
      \<lparr>rgb = \<lparr>r = Num 80, g = Num 160, b = Num 0\<rparr>, count = 3, hex = ''#50A000'', percentage = ''9.09''\<rparr>,
      \<lparr>rgb = \<lparr>r = Num 0, g = Num 0, b = Num 0\<rparr>, count = 1, hex = ''#000000'', percentage = ''3.03''\<rparr>,
      \<lparr>rgb = \<lparr>r = Num 40, g = Num 0, b = Num 0\<rparr>, count = 1, hex = ''#280000'', percentage = ''3.03''\<rparr>,
      \<lparr>rgb = \<lparr>r = Num 80, g = Num 0, b = Num 0\<rparr>, count = 1, hex = ''#500000'', percentage = ''3.03''\<rparr>,
      \<lparr>rgb = \<lparr>r = Num 120, g = Num 0, b = Num 0\<rparr>, count = 1, hex = ''#780000'', percentage = ''3.03''\<rparr>,
      \<lparr>rgb = \<lparr>r = Num 160, g = Num 0, b = Num 0\<rparr>, count = 1, hex = ''#A00000'', percentage = ''3.03''\<rparr>,
      \<lparr>rgb = \<lparr>r = Num 200, g = Num 0, b = Num 0\<rparr>, count = 1, hex = ''#C80000'', percentage = ''3.03''\<rparr>,
      \<lparr>rgb = \<lparr>r = Num 240, g = Num 0, b = Num 0\<rparr>, count = 1, hex = ''#F00000'', percentage = ''3.03''\<rparr>,
      \<lparr>rgb = \<lparr>r = Num 0, g = Num 40, b = Num 0\<rparr>, count = 1, hex = ''#002800'', percentage = ''3.03''\<rparr>,
      \<lparr>rgb = \<lparr>r = Num 40, g = Num 40, b = Num 0\<rparr>, count = 1, hex = ''#282800'', percentage = ''3.03''\<rparr>,
      \<lparr>rgb = \<lparr>r = Num 80, g = Num 40, b = Num 0\<rparr>, count = 1, hex = ''#502800'', percentage = ''3.03''\<rparr>,
      \<lparr>rgb = \<lparr>r = Num 120, g = Num 40, b = Num 0\<rparr>, count = 1, hex = ''#782800'', percentage = ''3.03''\<rparr>,
      \<lparr>rgb = \<lparr>r = Num 160, g = Num 40, b = Num 0\<rparr>, count = 1, hex = ''#A02800'', percentage = ''3.03''\<rparr>,
      \<lparr>rgb = \<lparr>r = Num 200, g = Num 40, b = Num 0\<rparr>, count = 1, hex = ''#C82800'', percentage = ''3.03''\<rparr>,
      \<lparr>rgb = \<lparr>r = Num 240, g = Num 40, b = Num 0\<rparr>, count = 1, hex = ''#F02800'', percentage = ''3.03''\<rparr>,
      \<lparr>rgb = \<lparr>r = Num 0, g = Num 80, b = Num 0\<rparr>, count = 1, hex = ''#005000'', percentage = ''3.03''\<rparr>,
      \<lparr>rgb = \<lparr>r = Num 40, g = Num 80, b = Num 0\<rparr>, count = 1, hex = ''#285000'', percentage = ''3.03''\<rparr>,
      \<lparr>rgb = \<lparr>r = Num 80, g = Num 80, b = Num 0\<rparr>, count = 1, hex = ''#505000'', percentage = ''3.03''\<rparr>,
      \<lparr>rgb = \<lparr>r = Num 120, g = Num 80, b = Num 0\<rparr>, count = 1, hex = ''#785000'', percentage = ''3.03''\<rparr>,
      \<lparr>rgb = \<lparr>r = Num 160, g = Num 80, b = Num 0\<rparr>, count = 1, hex = ''#A05000'', percentage = ''3.03''\<rparr>,
      \<lparr>rgb = \<lparr>r = Num 200, g = Num 80, b = Num 0\<rparr>, count = 1, hex = ''#C85000'', percentage = ''3.03''\<rparr>,
      \<lparr>rgb = \<lparr>r = Num 240, g = Num 80, b = Num 0\<rparr>, count = 1, hex = ''#F05000'', percentage = ''3.03''\<rparr>,
      \<lparr>rgb = \<lparr>r = Num 0, g = Num 120, b = Num 0\<rparr>, count = 1, hex = ''#007800'', percentage = ''3.03''\<rparr>,
      \<lparr>rgb = \<lparr>r = Num 40, g = Num 120, b = Num 0\<rparr>, count = 1, hex = ''#287800'', percentage = ''3.03''\<rparr>,
      \<lparr>rgb = \<lparr>r = Num 80, g = Num 120, b = Num 0\<rparr>, count = 1, hex = ''#507800'', percentage = ''3.03''\<rparr>,
      \<lparr>rgb = \<lparr>r = Num 120, g = Num 120, b = Num 0\<rparr>, count = 1, hex = ''#787800'', percentage = ''3.03''\<rparr>,
      \<lparr>rgb = \<lparr>r = Num 160, g = Num 120, b = Num 0\<rparr>, count = 1, hex = ''#A07800'', percentage = ''3.03''\<rparr>,
      \<lparr>rgb = \<lparr>r = Num 200, g = Num 120, b = Num 0\<rparr>, count = 1, hex = ''#C87800'', percentage = ''3.03''\<rparr>,
      \<lparr>rgb = \<lparr>r = Num 240, g = Num 120, b = Num 0\<rparr>, count = 1, hex = ''#F07800'', percentage = ''3.03''\<rparr>,
      \<lparr>rgb = \<lparr>r = Num 0, g = Num 160, b = Num 0\<rparr>, count = 1, hex = ''#00A000'', percentage = ''3.03''\<rparr>,
      \<lparr>rgb = \<lparr>r = Num 40, g = Num 160, b = Num 0\<rparr>, count = 1, hex = ''#28A000'', percentage = ''3.03''\<rparr>]"
  unfolding fullPalette_def page_colorMap
  by (simp add: sortColorsByUsage_def calculatePercentages_def totalCount_def percentage_eval)

lemma percentage_values:
  "percentageHundredths ''9.09'' = 909" "percentageHundredths ''3.03'' = 303"
  by (simp_all add: percentageHundredths_def)

text \<open>
  Claim C3, as the specification states it: the percentages of a returned palette sum to
  100.00 up to the rounding of the entries, also when the palette is truncated. The
  percentages are shares of all observations and are computed before the truncation: on
  the page with 31 colours, \<^verbatim>\<open>extractFromCurrentPage\<close> returns 30 entries, one with \<^verbatim>\<open>9.09\<close>
  and 29 with \<^verbatim>\<open>3.03\<close>, which sum to 96.96.
\<close>

theorem truncated_page_palette_sums_to_96_96:
  "length (fst (extractFromCurrentPage new_ColorExtractor page_observations)) = 30
   \<and> map percentage (fst (extractFromCurrentPage new_ColorExtractor page_observations))
       = ''9.09'' # replicate 29 ''3.03''
   \<and> percentageSum (fst (extractFromCurrentPage new_ColorExtractor page_observations)) = 9696
   \<and> \<not> sumsTo100 (fst (extractFromCurrentPage new_ColorExtractor page_observations))"
proof -
  have e: "fst (extractFromCurrentPage new_ColorExtractor page_observations)
      = take 30 (fullPalette (addColors (new_ColorExtractor\<lparr>colorMap := []\<rparr>) page_observations))"
    by (simp add: extractFromCurrentPage_def Let_def fullPalette_def)
  show ?thesis
    unfolding e page_palette
    by (simp add: percentageSum_def sumsTo100_def percentage_values eval_nat_numeral)
qed

text \<open>
  Claim C3, amended: when a non-empty palette is returned without truncation, which is
  always so for \<^verbatim>\<open>analyzeSVG\<close>, and for \<^verbatim>\<open>extractFromCurrentPage\<close> and \<^verbatim>\<open>analyzeImage\<close> when
  there are at most 30 and at most 50 clusters, its percentages sum to 100.00 up to half a
  hundredth for every entry. A truncated palette sums to the share of the observations
  that its entries hold.
\<close>

theorem percentages_sum_to_100_without_truncation:
  "(fst (analyzeSVG ex obs) \<noteq> [] \<longrightarrow> sumsTo100 (fst (analyzeSVG ex obs)))
   \<and> (fst (extractFromCurrentPage ex obs) \<noteq> []
        \<and> length (colorMap (snd (extractFromCurrentPage ex obs))) \<le> 30
      \<longrightarrow> sumsTo100 (fst (extractFromCurrentPage ex obs)))
   \<and> (fst (analyzeImage ex pixels) \<noteq> []
        \<and> length (colorMap (snd (analyzeImage ex pixels))) \<le> 50
      \<longrightarrow> sumsTo100 (fst (analyzeImage ex pixels)))"
proof (intro conjI impI)
  let ?ex1 = "addColors (ex\<lparr>colorMap := []\<rparr>) obs"
  have p1: "positiveCounts (colorMap ?ex1)"
    by (rule addColors_positive) (simp add: positiveCounts_Nil)
  have svg: "fst (analyzeSVG ex obs) = fullPalette ?ex1"
    by (simp add: analyzeSVG_def Let_def fullPalette_def)
  have page: "fst (extractFromCurrentPage ex obs) = take 30 (fullPalette ?ex1)"
    "snd (extractFromCurrentPage ex obs) = ?ex1"
    by (simp_all add: extractFromCurrentPage_def Let_def fullPalette_def)
  {
    assume "fst (analyzeSVG ex obs) \<noteq> []"
    then have "colorMap ?ex1 \<noteq> []" by (simp add: svg fullPalette_Nil_iff)
    then show "sumsTo100 (fst (analyzeSVG ex obs))"
      unfolding svg using p1 by (intro fullPalette_sumsTo100)
  }
  {
    assume a: "fst (extractFromCurrentPage ex obs) \<noteq> []
        \<and> length (colorMap (snd (extractFromCurrentPage ex obs))) \<le> 30"
    then have eq: "fst (extractFromCurrentPage ex obs) = fullPalette ?ex1"
      by (simp add: page take_fullPalette)
    with a have "colorMap ?ex1 \<noteq> []" by (simp add: fullPalette_Nil_iff)
    then show "sumsTo100 (fst (extractFromCurrentPage ex obs))"
      unfolding eq using p1 by (intro fullPalette_sumsTo100)
  }
  let ?ex2 = "sampleLoop (ex\<lparr>colorMap := []\<rparr>) pixels"
  have p2: "positiveCounts (colorMap ?ex2)"
    by (rule sampleLoop_positive) (simp add: positiveCounts_Nil)
  have image: "fst (analyzeImage ex pixels) = take 50 (fullPalette ?ex2)"
    "snd (analyzeImage ex pixels) = ?ex2"
    by (simp_all add: analyzeImage_def Let_def fullPalette_def)
  {
    assume a: "fst (analyzeImage ex pixels) \<noteq> []
        \<and> length (colorMap (snd (analyzeImage ex pixels))) \<le> 50"
    then have eq: "fst (analyzeImage ex pixels) = fullPalette ?ex2"
      by (simp add: image take_fullPalette)
    with a have "colorMap ?ex2 \<noteq> []" by (simp add: fullPalette_Nil_iff)
    then show "sumsTo100 (fst (analyzeImage ex pixels))"
      unfolding eq using p2 by (intro fullPalette_sumsTo100)
  }
qed

lemma linearize_0: "linearize 0 = 0" by (simp add: linearize_def)

lemma linearize_255: "linearize 255 = 1" by (simp add: linearize_def)

lemma rgbToHex_red: "rgbToHex (Num 255) (Num 0) (Num 0) = ''#FF0000''"
  by (simp add: string_eval)

lemma red_pixel_colorMap:
  "colorMap (sampleLoop (new_ColorExtractor\<lparr>colorMap := []\<rparr>) [(255, 0, 0, 255)])
     = [(''#FF0000'', \<lparr>rgb = \<lparr>r = Num 255, g = Num 0, b = Num 0\<rparr>, count = 1\<rparr>)]"
  by (simp add: samplePixel_def getLuminance_def linearize_0 linearize_255 addColor_def
      new_ColorExtractor_def rgbToHex_red)

theorem percentages_sum_to_100_without_truncation_witness:
  "fst (analyzeSVG new_ColorExtractor [(Num 10, Num 10, Num 10), (Num 200, Num 200, Num 200)]) \<noteq> []
   \<and> sumsTo100 (fst (analyzeSVG new_ColorExtractor [(Num 10, Num 10, Num 10), (Num 200, Num 200, Num 200)]))
   \<and> fst (extractFromCurrentPage new_ColorExtractor [(Num 10, Num 10, Num 10), (Num 200, Num 200, Num 200)]) \<noteq> []
   \<and> length (colorMap (snd (extractFromCurrentPage new_ColorExtractor
         [(Num 10, Num 10, Num 10), (Num 200, Num 200, Num 200)]))) \<le> 30
   \<and> sumsTo100 (fst (extractFromCurrentPage new_ColorExtractor
         [(Num 10, Num 10, Num 10), (Num 200, Num 200, Num 200)]))
   \<and> fst (analyzeImage new_ColorExtractor [(255, 0, 0, 255)]) \<noteq> []
   \<and> length (colorMap (snd (analyzeImage new_ColorExtractor [(255, 0, 0, 255)]))) \<le> 50
   \<and> sumsTo100 (fst (analyzeImage new_ColorExtractor [(255, 0, 0, 255)]))"
proof -
  let ?obs = "[(Num 10, Num 10, Num 10), (Num 200, Num 200, Num (200::int))]"
  let ?px = "[(255, 0, 0, 255)] :: pixel list"
  have m: "colorMap (addColors (new_ColorExtractor\<lparr>colorMap := []\<rparr>) ?obs)
      = [(''#0A0A0A'', \<lparr>rgb = \<lparr>r = Num 10, g = Num 10, b = Num 10\<rparr>, count = 1\<rparr>),
         (''#C8C8C8'', \<lparr>rgb = \<lparr>r = Num 200, g = Num 200, b = Num 200\<rparr>, count = 1\<rparr>)]"
    by (simp add: addColors_def addColor_def new_ColorExtractor_def areColorsSimilar_Num
        rgbToHex_10 rgbToHex_200)
  have h1: "fst (analyzeSVG new_ColorExtractor ?obs) \<noteq> []"
    unfolding analyzeSVG_def Let_def fst_conv m
    by (simp add: calculatePercentages_def sortColorsByUsage_def Let_def)
  have h2: "fst (extractFromCurrentPage new_ColorExtractor ?obs) \<noteq> []
        \<and> length (colorMap (snd (extractFromCurrentPage new_ColorExtractor ?obs))) \<le> 30"
    unfolding extractFromCurrentPage_def Let_def fst_conv snd_conv m
    by (simp add: calculatePercentages_def sortColorsByUsage_def Let_def)
  have h3: "fst (analyzeImage new_ColorExtractor ?px) \<noteq> []
        \<and> length (colorMap (snd (analyzeImage new_ColorExtractor ?px))) \<le> 50"
    unfolding analyzeImage_def Let_def fst_conv snd_conv red_pixel_colorMap
    by (simp add: calculatePercentages_def sortColorsByUsage_def Let_def)
  from percentages_sum_to_100_without_truncation [of new_ColorExtractor ?obs ?px] h1 h2 h3
  show ?thesis by blast
qed

subsection \<open>The size of a palette\<close>

lemma sorted_fullPalette: "sorted_wrt (\<lambda>a c. count c \<le> count a) (fullPalette ex)"
proof -
  let ?xs = "map (\<lambda>(h, d). \<lparr>rgb = rgb d, count = count d, hex = h, percentage = ''0''\<rparr>) (colorMap ex)"
  have "sorted (map (\<lambda>e. - int (count e)) (sort_key (\<lambda>e. - int (count e)) ?xs))"
    by (rule sorted_sort_key)
  then have "sorted_wrt (\<lambda>a c. count c \<le> count a) (sortColorsByUsage (colorMap ex))"
    by (simp add: sortColorsByUsage_def sorted_map)
  then show ?thesis
    by (simp add: fullPalette_def calculatePercentages_def Let_def sorted_wrt_map)
qed

lemma clusters_fullPalette:
  "set (map (\<lambda>e. (hex e, rgb e, count e)) (fullPalette ex))
     = set (map (\<lambda>(h, d). (h, rgb d, count d)) (colorMap ex))"
  by (force simp: fullPalette_def calculatePercentages_def Let_def sortColorsByUsage_def image_iff)

lemma top_of_sorted:
  assumes "sorted_wrt R xs"
  shows "\<forall>a \<in> set (take n xs). \<forall>c \<in> set (drop n xs). R a c"
proof -
  have "sorted_wrt R (take n xs @ drop n xs)" using assms by simp
  then show ?thesis unfolding sorted_wrt_append by blast
qed

lemma everyFifth_Nil: "everyFifth [] = []"
  by (simp add: everyFifth_def)

lemma everyFifth_Cons: "everyFifth (p # ps) = p # everyFifth (drop 4 ps)"
proof -
  define n where "n = (length (drop 4 ps) + 4) div 5"
  have l: "(length (p # ps) + 4) div 5 = Suc n"
    by (simp add: n_def)
  have r: "\<And>i. i < n \<Longrightarrow> 4 + 5 * i < length ps"
    unfolding n_def by (cases "4 \<le> length ps") auto
  have a: "everyFifth (p # ps) = map (\<lambda>i. (p # ps) ! (5 * i)) [0 ..< Suc n]"
    by (simp only: everyFifth_def l)
  have c: "everyFifth (drop 4 ps) = map (\<lambda>i. drop 4 ps ! (5 * i)) [0 ..< n]"
    by (simp only: everyFifth_def n_def)
  have "map (\<lambda>i. (p # ps) ! (5 * i)) [0 ..< Suc n]
      = (p # ps) ! (5 * 0) # map (\<lambda>i. (p # ps) ! (5 * Suc i)) [0 ..< n]"
    by (rule map_upt_Suc)
  also have "map (\<lambda>i. (p # ps) ! (5 * Suc i)) [0 ..< n] = map (\<lambda>i. drop 4 ps ! (5 * i)) [0 ..< n]"
  proof (intro map_cong refl)
    fix i assume "i \<in> set [0 ..< n]"
    then have "4 + 5 * i < length ps" using r by simp
    then have "4 \<le> length ps" by simp
    then show "(p # ps) ! (5 * Suc i) = drop 4 ps ! (5 * i)" by simp
  qed
  finally show ?thesis by (simp only: a c mult_0_right nth_Cons_0)
qed

lemma samplePixel_kept:
  "samplePixel ex p = (if keptPixel p then (case pixelObservation p of (r0, g0, b0) \<Rightarrow> addColor ex r0 g0 b0) else ex)"
  by (cases p) (auto simp: samplePixel_def keptPixel_def pixelObservation_def Let_def
      word_less_nat_alt not_less not_le)

lemma addColors_Cons: "addColors ex ((r0, g0, b0) # obs) = addColors (addColor ex r0 g0 b0) obs"
  by (simp add: addColors_def)

lemma addColors_Nil: "addColors ex [] = ex"
  by (simp add: addColors_def)

lemma sampleLoop_imageObservations: "sampleLoop ex pixels = addColors ex (imageObservations pixels)"
proof (induction ex pixels rule: sampleLoop.induct)
  case (1 ex)
  then show ?case by (simp add: imageObservations_def everyFifth_Nil addColors_Nil)
next
  case (2 ex p ps)
  obtain r0 g0 b0 where o: "pixelObservation p = (r0, g0, b0)" by (cases "pixelObservation p") auto
  show ?case
    using 2 by (simp add: imageObservations_def everyFifth_Cons samplePixel_kept o addColors_Cons)
qed

lemma byteObservation_pixel: "byteObservation (pixelObservation p)"
proof -
  have "0 \<le> uint w \<and> uint w \<le> 255" for w :: "8 word"
    using uint_lt2p [of w] by simp
  then show ?thesis by (cases p) (simp add: pixelObservation_def byteObservation_def)
qed

lemma byteObservation_image: "list_all byteObservation (imageObservations pixels)"
  by (simp add: imageObservations_def list_all_iff byteObservation_pixel)


lemma addColor_representatives:
  assumes "keyedByHex (colorMap ex)" "byteChannel r0" "byteChannel g0" "byteChannel b0"
    "0 < similarityThreshold ex"
  shows "(\<lambda>e. rgb (snd e)) ` set (colorMap ex) \<subseteq> (\<lambda>e. rgb (snd e)) ` set (colorMap (addColor ex r0 g0 b0))"
    and "(\<lambda>e. rgb (snd e)) ` set (colorMap (addColor ex r0 g0 b0))
           \<subseteq> insert \<lparr>r = r0, g = g0, b = b0\<rparr> ((\<lambda>e. rgb (snd e)) ` set (colorMap ex))"
    and "\<exists>e \<in> set (colorMap (addColor ex r0 g0 b0)).
           areColorsSimilar \<lparr>r = r0, g = g0, b = b0\<rparr> (rgb (snd e)) (similarityThreshold ex)"
proof -
  let ?c = "\<lparr>r = r0, g = g0, b = b0\<rparr>"
  let ?Q = "notSimilarTo ?c (similarityThreshold ex)"
  let ?R = "\<lambda>m. (\<lambda>e. rgb (snd e)) ` set m"
  have all: "?R (colorMap ex) \<subseteq> ?R (colorMap (addColor ex r0 g0 b0))
      \<and> ?R (colorMap (addColor ex r0 g0 b0)) \<subseteq> insert ?c (?R (colorMap ex))
      \<and> (\<exists>e \<in> set (colorMap (addColor ex r0 g0 b0)). areColorsSimilar ?c (rgb (snd e)) (similarityThreshold ex))"
  proof (cases "dropWhile ?Q (colorMap ex)")
    case Nil
    have bc: "byteColor ?c" using assms by (simp add: byteColor_def)
    have m: "colorMap (addColor ex r0 g0 b0) = colorMap ex @ [(rgbToHex r0 g0 b0, \<lparr>rgb = ?c, count = 1\<rparr>)]"
      unfolding addColor_colorMap [OF assms] Nil by simp
    have "areColorsSimilar ?c ?c (similarityThreshold ex)"
      using bc assms(5) by (rule byteColor_self_similar)
    then show ?thesis unfolding m by auto
  next
    case (Cons e rest)
    have m: "colorMap (addColor ex r0 g0 b0)
        = takeWhile ?Q (colorMap ex) @ (fst e, (snd e)\<lparr>count := count (snd e) + 1\<rparr>) # rest"
      unfolding addColor_colorMap [OF assms] Cons by simp
    have o: "colorMap ex = takeWhile ?Q (colorMap ex) @ e # rest"
      using takeWhile_dropWhile_id [of ?Q "colorMap ex"] Cons by simp
    have "\<not> ?Q (hd (dropWhile ?Q (colorMap ex)))"
      by (rule hd_dropWhile) (simp add: Cons)
    then have sim: "areColorsSimilar ?c (rgb (snd e)) (similarityThreshold ex)"
      by (simp add: Cons notSimilarTo_def)
    have R: "?R (colorMap (addColor ex r0 g0 b0)) = ?R (colorMap ex)"
    proof -
      have "?R (colorMap ex) = ?R (takeWhile ?Q (colorMap ex)) \<union> insert (rgb (snd e)) (?R rest)"
        by (subst o) (simp add: image_Un)
      moreover have "?R (colorMap (addColor ex r0 g0 b0))
          = ?R (takeWhile ?Q (colorMap ex)) \<union> insert (rgb (snd e)) (?R rest)"
        unfolding m by (simp add: image_Un)
      ultimately show ?thesis by simp
    qed
    have "\<exists>e' \<in> set (colorMap (addColor ex r0 g0 b0)). areColorsSimilar ?c (rgb (snd e')) (similarityThreshold ex)"
      unfolding m using sim by (intro bexI [of _ "(fst e, (snd e)\<lparr>count := count (snd e) + 1\<rparr>)"]) simp_all
    then show ?thesis using R by blast
  qed
  from all show "?R (colorMap ex) \<subseteq> ?R (colorMap (addColor ex r0 g0 b0))" by blast
  from all show "?R (colorMap (addColor ex r0 g0 b0)) \<subseteq> insert ?c (?R (colorMap ex))" by blast
  from all show "\<exists>e \<in> set (colorMap (addColor ex r0 g0 b0)).
      areColorsSimilar ?c (rgb (snd e)) (similarityThreshold ex)" by blast
qed

lemma addColors_representatives:
  assumes "keyedByHex (colorMap ex)" "list_all byteObservation obs" "0 < similarityThreshold ex"
  shows "(\<lambda>e. rgb (snd e)) ` set (colorMap ex) \<subseteq> (\<lambda>e. rgb (snd e)) ` set (colorMap (addColors ex obs))
       \<and> (\<lambda>e. rgb (snd e)) ` set (colorMap (addColors ex obs))
           \<subseteq> (\<lambda>e. rgb (snd e)) ` set (colorMap ex) \<union> observedColor ` set obs
       \<and> (\<forall>ob \<in> set obs. \<exists>c \<in> (\<lambda>e. rgb (snd e)) ` set (colorMap (addColors ex obs)).
             areColorsSimilar (observedColor ob) c (similarityThreshold ex))"
  using assms
proof (induction obs arbitrary: ex)
  case Nil
  then show ?case by (simp add: addColors_Nil)
next
  case (Cons ob obs)
  obtain r0 g0 b0 where ob: "ob = (r0, g0, b0)" by (cases ob) auto
  with Cons.prems have bc: "byteChannel r0" "byteChannel g0" "byteChannel b0"
    by (simp_all add: byteObservation_def)
  have step: "addColors ex (ob # obs) = addColors (addColor ex r0 g0 b0) obs"
    by (simp add: ob addColors_Cons)
  have oc: "\<lparr>r = r0, g = g0, b = b0\<rparr> = observedColor ob" by (simp add: ob observedColor_def)
  have k: "keyedByHex (colorMap (addColor ex r0 g0 b0))"
    using addColor_keyedByHex [OF Cons.prems(1) bc Cons.prems(3)] .
  have t: "0 < similarityThreshold (addColor ex r0 g0 b0)" using Cons.prems(3) by simp
  have l: "list_all byteObservation obs" using Cons.prems(2) by simp
  define R0 where "R0 = (\<lambda>e. rgb (snd e)) ` set (colorMap ex)"
  define R1 where "R1 = (\<lambda>e. rgb (snd e)) ` set (colorMap (addColor ex r0 g0 b0))"
  define R2 where "R2 = (\<lambda>e. rgb (snd e)) ` set (colorMap (addColors (addColor ex r0 g0 b0) obs))"
  define Os where "Os = observedColor ` set obs"
  define S where "S = (\<lambda>ob c. areColorsSimilar (observedColor ob) c (similarityThreshold ex))"
  have "R1 \<subseteq> R2 \<and> R2 \<subseteq> R1 \<union> Os \<and> (\<forall>ob' \<in> set obs. \<exists>c \<in> R2. S ob' c)"
    using Cons.IH [OF k l t] unfolding R1_def R2_def Os_def S_def addColor_threshold .
  then have ih: "R1 \<subseteq> R2" "R2 \<subseteq> R1 \<union> Os" "\<forall>ob' \<in> set obs. \<exists>c \<in> R2. S ob' c"
    by blast+
  note ac = addColor_representatives [OF Cons.prems(1) bc Cons.prems(3)]
  have a1: "R0 \<subseteq> R1" using ac(1) unfolding R0_def R1_def .
  have a2: "R1 \<subseteq> insert (observedColor ob) R0" using ac(2) unfolding R0_def R1_def oc .
  have a3: "\<exists>c \<in> R1. S ob c"
  proof -
    from ac(3) obtain e where e: "e \<in> set (colorMap (addColor ex r0 g0 b0))"
      "areColorsSimilar \<lparr>r = r0, g = g0, b = b0\<rparr> (rgb (snd e)) (similarityThreshold ex)" by blast
    from e(1) have "rgb (snd e) \<in> R1" unfolding R1_def by (rule imageI)
    moreover from e(2) have "S ob (rgb (snd e))" unfolding S_def oc .
    ultimately show ?thesis by blast
  qed
  note a = a1 a2 a3
  have 1: "R0 \<subseteq> R2" using a(1) ih(1) by blast
  have 2: "R2 \<subseteq> R0 \<union> insert (observedColor ob) Os" using a(2) ih(2) by blast
  have 3: "\<forall>ob' \<in> set (ob # obs). \<exists>c \<in> R2. S ob' c"
  proof
    fix ob' assume "ob' \<in> set (ob # obs)"
    then consider "ob' = ob" | "ob' \<in> set obs" by auto
    then show "\<exists>c \<in> R2. S ob' c"
    proof cases
      case 1
      then show ?thesis using a(3) ih(1) by blast
    next
      case 2
      then show ?thesis using ih(3) by blast
    qed
  qed
  have Os': "observedColor ` set (ob # obs) = insert (observedColor ob) Os" by (simp add: Os_def)
  have 4: "\<forall>ob' \<in> set (ob # obs). \<exists>c \<in> R2. areColorsSimilar (observedColor ob') c (similarityThreshold ex)"
    using 3 unfolding S_def .
  from 1 2 4 show ?case
    by (simp only: step R0_def [symmetric] R2_def [symmetric] Os')
qed

lemma fullPalette_counts: "sum_list (map count (fullPalette ex)) = totalOfMap (colorMap ex)"
proof -
  have "map count (calculatePercentages xs) = map count xs" for xs
    by (simp add: calculatePercentages_def Let_def o_def)
  then show ?thesis by (simp add: fullPalette_def sortColorsByUsage_counts totalOfMap_def)
qed

lemma fullPalette_entries:
  "(\<lambda>e. (rgb e, count e)) ` set (fullPalette ex) = (\<lambda>e. (rgb (snd e), count (snd e))) ` set (colorMap ex)"
proof -
  have "(\<lambda>e. (rgb e, count e)) ` set (fullPalette ex)
      = snd ` set (map (\<lambda>e. (hex e, rgb e, count e)) (fullPalette ex))"
    by (simp add: image_image)
  also have "\<dots> = snd ` set (map (\<lambda>(h, d). (h, rgb d, count d)) (colorMap ex))"
    by (simp only: clusters_fullPalette)
  also have "\<dots> = (\<lambda>e. (rgb (snd e), count (snd e))) ` set (colorMap ex)"
    by (simp add: image_image case_prod_unfold)
  finally show ?thesis .
qed

lemma accountsFor_fullPalette:
  assumes "list_all byteObservation obs" "0 < similarityThreshold ex"
  shows "accountsFor (similarityThreshold ex) (fullPalette (addColors (ex\<lparr>colorMap := []\<rparr>) obs)) obs"
proof -
  let ?ex0 = "ex\<lparr>colorMap := []\<rparr>"
  let ?ex1 = "addColors ?ex0 obs"
  have k: "keyedByHex (colorMap ?ex0)" by (simp add: keyedByHex_Nil)
  have t: "0 < similarityThreshold ?ex0" using assms(2) by simp
  have p: "positiveCounts (colorMap ?ex1)"
    by (intro addColors_positive) (simp add: positiveCounts_Nil)
  from addColors_invariant [OF k assms(1) t]
  have tot: "totalOfMap (colorMap ?ex1) = length obs" by (simp add: totalOfMap_def)
  from addColors_representatives [OF k assms(1) t]
  have sub: "(\<lambda>e. rgb (snd e)) ` set (colorMap ?ex1) \<subseteq> observedColor ` set obs"
    and cov: "\<forall>ob \<in> set obs. \<exists>c \<in> (\<lambda>e. rgb (snd e)) ` set (colorMap ?ex1).
             areColorsSimilar (observedColor ob) c (similarityThreshold ex)"
    by simp_all
  note ent = fullPalette_entries [of ?ex1]
  have 1: "sum_list (map count (fullPalette ?ex1)) = length obs"
    by (simp only: fullPalette_counts tot)
  have 2: "\<exists>e \<in> set (fullPalette ?ex1). areColorsSimilar (observedColor ob) (rgb e) (similarityThreshold ex)"
    if "ob \<in> set obs" for ob
  proof -
    from cov that obtain c where c: "c \<in> (\<lambda>e. rgb (snd e)) ` set (colorMap ?ex1)"
      "areColorsSimilar (observedColor ob) c (similarityThreshold ex)" by blast
    from c(1) obtain e where e0: "e \<in> set (colorMap ?ex1)" "c = rgb (snd e)" by blast
    from e0(1) c(2) have e: "e \<in> set (colorMap ?ex1)"
      "areColorsSimilar (observedColor ob) (rgb (snd e)) (similarityThreshold ex)"
      by (simp_all only: e0(2) [symmetric])
    from e(1) have "(rgb (snd e), count (snd e)) \<in> (\<lambda>e. (rgb e, count e)) ` set (fullPalette ?ex1)"
      unfolding ent by (rule imageI)
    then obtain e' where e': "e' \<in> set (fullPalette ?ex1)" "rgb e' = rgb (snd e)" by auto
    from e(2) have "areColorsSimilar (observedColor ob) (rgb e') (similarityThreshold ex)"
      by (simp only: e'(2))
    with e'(1) show ?thesis by (rule bexI [rotated])
  qed
  have 3: "0 < count e \<and> rgb e \<in> observedColor ` set obs" if "e \<in> set (fullPalette ?ex1)" for e
  proof -
    from that have "(rgb e, count e) \<in> (\<lambda>e. (rgb (snd e), count (snd e))) ` set (colorMap ?ex1)"
      unfolding ent [symmetric] by (rule imageI)
    then obtain d where d: "d \<in> set (colorMap ?ex1)" "rgb e = rgb (snd d)" "count e = count (snd d)"
      by auto
    from p d(1) have "0 < count (snd d)" by (simp add: positiveCounts_def list_all_iff)
    moreover from sub d(1) have "rgb (snd d) \<in> observedColor ` set obs" by blast
    ultimately show ?thesis using d by simp
  qed
  show ?thesis unfolding accountsFor_def using 1 2 3 by blast
qed

lemma rgbToHex_blue: "rgbToHex (Num 0) (Num 0) (Num 255) = ''#0000FF''"
  by (simp add: string_eval)

lemma image_observations:
  "imageObservations image_pixels = [(Num 0, Num 0, Num 255), (Num 255, Num 0, Num 0), (Num 255, Num 0, Num 0)]"
  by (simp add: image_pixels_def imageObservations_def everyFifth_Cons everyFifth_Nil keptPixel_def
      pixelObservation_def getLuminance_def linearize_0 linearize_255)

lemma image_colorMap:
  "colorMap (addColors (new_ColorExtractor\<lparr>colorMap := []\<rparr>)
       [(Num 0, Num 0, Num 255), (Num 255, Num 0, Num 0), (Num 255, Num 0, Num 0)])
     = [(''#0000FF'', \<lparr>rgb = \<lparr>r = Num 0, g = Num 0, b = Num 255\<rparr>, count = 1\<rparr>),
        (''#FF0000'', \<lparr>rgb = \<lparr>r = Num 255, g = Num 0, b = Num 0\<rparr>, count = 2\<rparr>)]"
  by (simp add: addColors_def addColor_def new_ColorExtractor_def areColorsSimilar_Num
      rgbToHex_red rgbToHex_blue)

lemma image_palette:
  "fullPalette (addColors (new_ColorExtractor\<lparr>colorMap := []\<rparr>)
       [(Num 0, Num 0, Num 255), (Num 255, Num 0, Num 0), (Num 255, Num 0, Num 0)])
     = [\<lparr>rgb = \<lparr>r = Num 255, g = Num 0, b = Num 0\<rparr>, count = 2, hex = ''#FF0000'', percentage = ''66.67''\<rparr>,
        \<lparr>rgb = \<lparr>r = Num 0, g = Num 0, b = Num 255\<rparr>, count = 1, hex = ''#0000FF'', percentage = ''33.33''\<rparr>]"
  unfolding fullPalette_def image_colorMap
  by (simp add: sortColorsByUsage_def calculatePercentages_def totalCount_def
      percentageOf_Suc_3)

text \<open>
  Claim C6. The loop of \<^verbatim>\<open>analyzeImage\<close> adds exactly the observations of the image, in
  their order, and the palette that \<^verbatim>\<open>analyzeImage\<close> returns is the first 50 entries, that
  of \<^verbatim>\<open>extractFromCurrentPage\<close> the first 30 entries, of the palette of all clusters that
  the extractor holds after the last observation; \<^verbatim>\<open>analyzeSVG\<close> returns that palette
  whole. For a positive threshold and observations with byte channels (every observation of
  an image is one) the palette of all clusters accounts for all observations: its counts add
  up to their number, every observation is similar to a representative, and every
  representative is an observed colour. The palette of all clusters has one entry for every
  cluster and is sorted by descending count, so every entry that a truncation keeps has a
  count at least as large as every entry it drops.
\<close>

theorem palette_is_top_of_full_aggregation:
  "sampleLoop (ex\<lparr>colorMap := []\<rparr>) pixels = addColors (ex\<lparr>colorMap := []\<rparr>) (imageObservations pixels)
   \<and> fst (analyzeImage ex pixels)
       = take 50 (fullPalette (addColors (ex\<lparr>colorMap := []\<rparr>) (imageObservations pixels)))
   \<and> (0 < similarityThreshold ex \<longrightarrow>
        accountsFor (similarityThreshold ex)
          (fullPalette (addColors (ex\<lparr>colorMap := []\<rparr>) (imageObservations pixels))) (imageObservations pixels))
   \<and> length (fst (analyzeImage ex pixels)) \<le> 50
   \<and> fst (extractFromCurrentPage ex obs) = take 30 (fullPalette (addColors (ex\<lparr>colorMap := []\<rparr>) obs))
   \<and> length (fst (extractFromCurrentPage ex obs)) \<le> 30
   \<and> fst (analyzeSVG ex obs) = fullPalette (addColors (ex\<lparr>colorMap := []\<rparr>) obs)
   \<and> length (fst (analyzeSVG ex obs)) = length (colorMap (addColors (ex\<lparr>colorMap := []\<rparr>) obs))
   \<and> (0 < similarityThreshold ex \<and> list_all byteObservation obs \<longrightarrow>
        accountsFor (similarityThreshold ex) (fullPalette (addColors (ex\<lparr>colorMap := []\<rparr>) obs)) obs)
   \<and> length (fullPalette ex') = length (colorMap ex')
   \<and> set (map (\<lambda>e. (hex e, rgb e, count e)) (fullPalette ex'))
       = set (map (\<lambda>(h, d). (h, rgb d, count d)) (colorMap ex'))
   \<and> sorted_wrt (\<lambda>a c. count c \<le> count a) (fullPalette ex')
   \<and> (\<forall>a \<in> set (take n (fullPalette ex')). \<forall>c \<in> set (drop n (fullPalette ex')). count c \<le> count a)"
proof (intro conjI)
  show "sampleLoop (ex\<lparr>colorMap := []\<rparr>) pixels = addColors (ex\<lparr>colorMap := []\<rparr>) (imageObservations pixels)"
    by (rule sampleLoop_imageObservations)
  show "fst (analyzeImage ex pixels)
       = take 50 (fullPalette (addColors (ex\<lparr>colorMap := []\<rparr>) (imageObservations pixels)))"
    by (simp add: analyzeImage_def Let_def fullPalette_def sampleLoop_imageObservations)
  show "0 < similarityThreshold ex \<longrightarrow>
        accountsFor (similarityThreshold ex)
          (fullPalette (addColors (ex\<lparr>colorMap := []\<rparr>) (imageObservations pixels))) (imageObservations pixels)"
    using accountsFor_fullPalette [OF byteObservation_image] by blast
  show "0 < similarityThreshold ex \<and> list_all byteObservation obs \<longrightarrow>
        accountsFor (similarityThreshold ex) (fullPalette (addColors (ex\<lparr>colorMap := []\<rparr>) obs)) obs"
    using accountsFor_fullPalette by blast
  show "\<forall>a \<in> set (take n (fullPalette ex')). \<forall>c \<in> set (drop n (fullPalette ex')). count c \<le> count a"
    using sorted_fullPalette by (rule top_of_sorted)
  show "set (map (\<lambda>e. (hex e, rgb e, count e)) (fullPalette ex'))
       = set (map (\<lambda>(h, d). (h, rgb d, count d)) (colorMap ex'))"
    by (rule clusters_fullPalette)
qed (simp_all add: analyzeImage_def extractFromCurrentPage_def analyzeSVG_def Let_def
    fullPalette_def [symmetric] length_fullPalette sorted_fullPalette)


text \<open>
  The image of 23 pixels gives three observations and two clusters, the red one first
  although blue was seen first. On the page with 31 colours the palette of all clusters
  accounts for the 33 observations, and the cluster that was created last, and seen three
  times, is the first of the 30 entries that \<^verbatim>\<open>extractFromCurrentPage\<close> returns.
\<close>

theorem palette_is_top_of_full_aggregation_witness:
  "imageObservations image_pixels = [(Num 0, Num 0, Num 255), (Num 255, Num 0, Num 0), (Num 255, Num 0, Num 0)]
   \<and> fst (analyzeImage new_ColorExtractor image_pixels)
       = [\<lparr>rgb = \<lparr>r = Num 255, g = Num 0, b = Num 0\<rparr>, count = 2, hex = ''#FF0000'', percentage = ''66.67''\<rparr>,
          \<lparr>rgb = \<lparr>r = Num 0, g = Num 0, b = Num 255\<rparr>, count = 1, hex = ''#0000FF'', percentage = ''33.33''\<rparr>]
   \<and> accountsFor 30 (fst (analyzeImage new_ColorExtractor image_pixels)) (imageObservations image_pixels)
   \<and> 0 < similarityThreshold new_ColorExtractor
   \<and> list_all byteObservation page_observations
   \<and> length page_observations = 33
   \<and> accountsFor 30 (fst (analyzeSVG new_ColorExtractor page_observations)) page_observations
   \<and> sum_list (map count (fst (analyzeSVG new_ColorExtractor page_observations))) = 33
   \<and> length (colorMap (addColors (new_ColorExtractor\<lparr>colorMap := []\<rparr>) page_observations)) = 31
   \<and> length (fst (extractFromCurrentPage new_ColorExtractor page_observations)) = 30
   \<and> hd (fst (extractFromCurrentPage new_ColorExtractor page_observations))
       = \<lparr>rgb = \<lparr>r = Num 80, g = Num 160, b = Num 0\<rparr>, count = 3, hex = ''#50A000'', percentage = ''9.09''\<rparr>
   \<and> hd (fst (extractFromCurrentPage new_ColorExtractor page_observations))
       \<in> set (take 30 (fullPalette (addColors (new_ColorExtractor\<lparr>colorMap := []\<rparr>) page_observations)))
   \<and> last (fullPalette (addColors (new_ColorExtractor\<lparr>colorMap := []\<rparr>) page_observations))
       \<in> set (drop 30 (fullPalette (addColors (new_ColorExtractor\<lparr>colorMap := []\<rparr>) page_observations)))
   \<and> count (last (fullPalette (addColors (new_ColorExtractor\<lparr>colorMap := []\<rparr>) page_observations)))
       \<le> count (hd (fst (extractFromCurrentPage new_ColorExtractor page_observations)))"
proof -
  let ?ex = "addColors (new_ColorExtractor\<lparr>colorMap := []\<rparr>) page_observations"
  let ?p = "fst (extractFromCurrentPage new_ColorExtractor page_observations)"
  let ?img = "addColors (new_ColorExtractor\<lparr>colorMap := []\<rparr>) (imageObservations image_pixels)"
  note t = palette_is_top_of_full_aggregation [of new_ColorExtractor image_pixels page_observations ?ex 30]
  have th: "similarityThreshold new_ColorExtractor = 30" by (simp add: new_ColorExtractor_def)
  have t0: "0 < similarityThreshold new_ColorExtractor" by (simp add: th)
  have by_obs: "list_all byteObservation page_observations"
    by (simp add: page_observations_def byteObservation_def)
  have len: "length page_observations = 33" by (simp add: page_observations_def)
  from t have i1: "fst (analyzeImage new_ColorExtractor image_pixels) = take 50 (fullPalette ?img)" by blast
  from t t0 have i2: "accountsFor 30 (fullPalette ?img) (imageObservations image_pixels)"
    unfolding th by blast
  have i3: "take 50 (fullPalette ?img) = fullPalette ?img"
    unfolding image_observations image_palette by simp
  from t have s1: "fst (analyzeSVG new_ColorExtractor page_observations) = fullPalette ?ex" by blast
  from t t0 by_obs have s2: "accountsFor 30 (fullPalette ?ex) page_observations"
    unfolding th by blast
  from s2 have s3: "sum_list (map count (fullPalette ?ex)) = 33"
    unfolding accountsFor_def len by blast
  from t have p: "?p = take 30 (fullPalette ?ex)" by blast
  from t have top: "\<forall>a \<in> set (take 30 (fullPalette ?ex)). \<forall>c \<in> set (drop 30 (fullPalette ?ex)). count c \<le> count a"
    by blast
  have l: "length (colorMap ?ex) = 31" by (simp add: page_colorMap)
  have l30: "length ?p = 30" unfolding p by (simp add: length_fullPalette l)
  have h: "hd ?p = \<lparr>rgb = \<lparr>r = Num 80, g = Num 160, b = Num 0\<rparr>, count = 3, hex = ''#50A000'', percentage = ''9.09''\<rparr>"
    unfolding p page_palette by simp
  have hin: "hd ?p \<in> set (take 30 (fullPalette ?ex))"
    using l30 unfolding p [symmetric] by (intro hd_in_set) auto
  have lin: "last (fullPalette ?ex) \<in> set (drop 30 (fullPalette ?ex))"
    unfolding page_palette by simp
  from top hin lin have c: "count (last (fullPalette ?ex)) \<le> count (hd ?p)" by blast
  have a1: "fst (analyzeImage new_ColorExtractor image_pixels)
       = [\<lparr>rgb = \<lparr>r = Num 255, g = Num 0, b = Num 0\<rparr>, count = 2, hex = ''#FF0000'', percentage = ''66.67''\<rparr>,
          \<lparr>rgb = \<lparr>r = Num 0, g = Num 0, b = Num 255\<rparr>, count = 1, hex = ''#0000FF'', percentage = ''33.33''\<rparr>]"
    unfolding i1 i3 unfolding image_observations image_palette ..
  have a2: "accountsFor 30 (fst (analyzeImage new_ColorExtractor image_pixels)) (imageObservations image_pixels)"
    unfolding i1 i3 by (rule i2)
  have a3: "accountsFor 30 (fst (analyzeSVG new_ColorExtractor page_observations)) page_observations"
    unfolding s1 by (rule s2)
  have a4: "sum_list (map count (fst (analyzeSVG new_ColorExtractor page_observations))) = 33"
    unfolding s1 by (rule s3)
  from image_observations a1 a2 t0 by_obs len a3 a4 l l30 h hin lin c show ?thesis by blast
qed

end
